theory Spec2Isabelle
  imports Main "HOL-Library.Sublist"
begin

section \<open>The YGG provider of CouchPotato (src/ygg/ygg.py)\<close>

text \<open>
  The provider is a Python 2 class. Its own code is embedded below, function by function
  and under the names of the source. What it calls in other packages (the HTML parser,
  the HTTP transport, the helpers of CouchPotato, \<open>str.format\<close>, \<open>datetime\<close>) is not code of
  the provider: those functions are fields of the record \<open>lib\<close>, and every theorem
  holds for every value of that record.

  Strings are \<open>string\<close>s holding the UTF-8 bytes of the Python text. The three regular
  expressions of the source are written over the classes \<open>\s\<close>, \<open>\d\<close>, \<open>/\<close>, \<open>-\<close> and over
  literal text. Without the flag \<open>re.UNICODE\<close> the classes \<open>\s\<close> and \<open>\d\<close> are ASCII classes,
  and no byte of a multi-byte UTF-8 sequence is an ASCII byte, so matching the bytes and
  matching the code points give the same answer and the same groups.
\<close>

subsection \<open>Exceptions\<close>

datatype exn =
    AttributeError
  | IndexError
  | KeyError
  | RecursionError
  | LibraryError string

subsection \<open>The regular expressions of the source\<close>

text \<open>\<open>\s\<close> without \<open>re.UNICODE\<close>: space, tab, line feed, vertical tab, form feed, carriage return.\<close>

definition is_space :: "char \<Rightarrow> bool" where
  "is_space c = (c \<in> set [CHR '' '', CHR 0x09, CHR 0x0A, CHR 0x0B, CHR 0x0C, CHR 0x0D])"

text \<open>\<open>\d\<close> without \<open>re.UNICODE\<close>: the ten ASCII digits.\<close>

definition is_digit :: "char \<Rightarrow> bool" where
  "is_digit c = (c \<in> set ''0123456789'')"

text \<open>The class \<open>[^/\s]\<close>.\<close>

definition not_slash_space :: "char \<Rightarrow> bool" where
  "not_slash_space c = (c \<noteq> CHR ''/'' \<and> \<not> is_space c)"

text \<open>
  \<open>url_regexp = '^(https://[^/\s]+)/?'\<close> under \<open>re.search\<close>, returning \<open>group(1)\<close> of the match or
  \<open>None\<close>. The pattern is anchored at the start of the string. \<open>[^/\s]+\<close> is greedy and what
  follows it (\<open>/?\<close>) matches the empty string, so the group is \<open>https://\<close> followed by the
  longest run of characters of the class, and there is a match exactly when that run is
  not empty.
\<close>

definition url_regexp :: "string \<Rightarrow> string option" where
  "url_regexp s =
     (if take 8 s = ''https://'' \<and> takeWhile not_slash_space (drop 8 s) \<noteq> []
      then Some (''https://'' @ takeWhile not_slash_space (drop 8 s))
      else None)"

text \<open>
  A literal pattern under \<open>re.search\<close>: is there a position of the string where the pattern
  starts.
\<close>

fun re_find :: "string \<Rightarrow> string \<Rightarrow> bool" where
  "re_find p [] = (p = [])"
| "re_find p (c # cs) = (prefix p (c # cs) \<or> re_find p cs)"

text \<open>
  The category test of line 218, \<open>re.search(u'/filmvid\'eo/(film|animation|documentaire)/', s)\<close>
  where \<open>\'e\<close> stands for the letter e with an acute accent, U+00E9, the bytes C3 A9 in
  UTF-8. The alternation is tried in the order of the pattern at each position; whether
  there is a match does not depend on that order.
\<close>

definition filmvideo :: string where
  "filmvideo = ''/filmvid'' @ [CHR 0xC3, CHR 0xA9] @ ''o/''"

definition category_search :: "string \<Rightarrow> bool" where
  "category_search s =
     (re_find (filmvideo @ ''film/'') s \<or>
      re_find (filmvideo @ ''animation/'') s \<or>
      re_find (filmvideo @ ''documentaire/'') s)"

text \<open>
  The identifier pattern of line 221, \<open>'/(\d+)-[^/\s]+$'\<close>. \<open>id_match\<close> matches it at the
  start of a string and returns \<open>group(1)\<close>. Both repetitions are greedy, and a shorter
  repetition never leads to a match: after a shorter run of digits the next character is
  a digit, not \<open>-\<close>; after a shorter run of \<open>[^/\s]\<close> the next character is of that class,
  so it is neither the end of the string nor a final line feed. \<open>$\<close> matches at the end of
  the string and before a line feed that ends the string.
\<close>

definition id_match :: "string \<Rightarrow> string option" where
  "id_match s =
     (case s of
        [] \<Rightarrow> None
      | c # r \<Rightarrow>
          if c \<noteq> CHR ''/'' then None
          else let ds = takeWhile is_digit r; r1 = dropWhile is_digit r in
            if ds = [] then None
            else (case r1 of
                [] \<Rightarrow> None
              | d # r2 \<Rightarrow>
                  if d \<noteq> CHR ''-'' then None
                  else let slug = takeWhile not_slash_space r2;
                           r3 = dropWhile not_slash_space r2 in
                    if slug \<noteq> [] \<and> (r3 = [] \<or> r3 = [CHR 0x0A]) then Some ds else None))"

text \<open>\<open>re.search\<close> with that pattern: the leftmost position where it matches.\<close>

fun id_search :: "string \<Rightarrow> string option" where
  "id_search [] = None"
| "id_search (c # cs) =
     (case id_match (c # cs) of Some g \<Rightarrow> Some g | None \<Rightarrow> id_search cs)"

subsection \<open>The parsed document\<close>

text \<open>
  What \<open>BeautifulSoup(data, 'html.parser')\<close> returns is a tree. A node is a string of the
  document (\<open>NavigableString\<close>; \<open>CData\<close> behaves like it in everything used here), a string
  that is not part of the text (\<open>Comment\<close>, standing for the classes \<open>Comment\<close>, \<open>Doctype\<close>,
  \<open>Declaration\<close> and \<open>ProcessingInstruction\<close>), or a tag with its name, the values of its
  \<open>class\<close> attribute (empty when the tag has none), its \<open>href\<close> attribute and its children.
  No other attribute is read by the provider. The soup itself is a tag, named
  \<open>[document]\<close>, whose children are the top-level nodes.
\<close>

datatype node =
    NavigableString string
  | Comment string
  | Tag string "string list" "string option" "node list"

text \<open>
  A node of a document is used together with its ancestors, the parent first: an
  \<open>element\<close>. That is what \<open>.parent\<close> reads.
\<close>

type_synonym element = "node \<times> node list"

text \<open>The elements of a subtree in document order, the root first.\<close>

fun walk :: "node list \<Rightarrow> node \<Rightarrow> element list" where
  "walk anc (Tag nm cl hr kids) =
     (Tag nm cl hr kids, anc) # concat (map (walk (Tag nm cl hr kids # anc)) kids)"
| "walk anc (NavigableString s) = [(NavigableString s, anc)]"
| "walk anc (Comment s) = [(Comment s, anc)]"

definition contents :: "node \<Rightarrow> node list" where
  "contents n = (case n of Tag nm cl hr kids \<Rightarrow> kids | _ \<Rightarrow> [])"

text \<open>\<open>e.descendants\<close>: everything below \<open>e\<close>, in document order, \<open>e\<close> itself left out.\<close>

definition descendants :: "element \<Rightarrow> element list" where
  "descendants e = concat (map (walk (fst e # snd e)) (contents (fst e)))"

text \<open>\<open>e.parent\<close>; the parent of the soup is \<open>None\<close>.\<close>

definition parent :: "element \<Rightarrow> element option" where
  "parent e = (case snd e of [] \<Rightarrow> None | p # anc \<Rightarrow> Some (p, anc))"

text \<open>
  \<open>find\<close> and \<open>find_next\<close> return the first element of a sequence of elements that passes a
  test. \<open>find_in\<close> also returns the elements after it: when the sequence is the whole
  document, those are \<open>next_elements\<close> of the element found, which \<open>find_next\<close> searches.
\<close>

fun find_in :: "(node \<Rightarrow> bool) \<Rightarrow> element list \<Rightarrow> (element \<times> element list) option" where
  "find_in p [] = None"
| "find_in p (e # es) = (if p (fst e) then Some (e, es) else find_in p es)"

text \<open>\<open>find_all\<close> returns every element that passes the test, in document order.\<close>

definition find_all :: "(node \<Rightarrow> bool) \<Rightarrow> element list \<Rightarrow> element list" where
  "find_all p es = filter (\<lambda>e. p (fst e)) es"

text \<open>
  The tests. A tag name given as a string is compared with the name of a tag. A class
  given as a string matches when it is one of the values of the \<open>class\<close> attribute, or
  when it is all the values joined by single spaces; a tag without a class does not
  match. A text given as a string matches a
  string node (of either kind) that is equal to it as a whole. A compiled pattern for
  \<open>href\<close> is searched in the attribute's value, and a tag with no \<open>href\<close> does not match.
\<close>

definition is_named :: "string \<Rightarrow> node \<Rightarrow> bool" where
  "is_named nm n = (case n of Tag nm' cl hr kids \<Rightarrow> nm' = nm | _ \<Rightarrow> False)"

fun join_space :: "string list \<Rightarrow> string" where
  "join_space [] = []"
| "join_space [x] = x"
| "join_space (x # y # ys) = x @ '' '' @ join_space (y # ys)"

definition has_class :: "string \<Rightarrow> node \<Rightarrow> bool" where
  "has_class c n =
     (case n of Tag nm cl hr kids \<Rightarrow> cl \<noteq> [] \<and> (c \<in> set cl \<or> join_space cl = c) | _ \<Rightarrow> False)"

definition string_of :: "node \<Rightarrow> string option" where
  "string_of n =
     (case n of NavigableString s \<Rightarrow> Some s | Comment s \<Rightarrow> Some s | Tag nm cl hr kids \<Rightarrow> None)"

definition is_text :: "string \<Rightarrow> node \<Rightarrow> bool" where
  "is_text s n = (string_of n = Some s)"

definition href_of :: "node \<Rightarrow> string option" where
  "href_of n = (case n of Tag nm cl hr kids \<Rightarrow> hr | _ \<Rightarrow> None)"

definition href_matches :: "(string \<Rightarrow> bool) \<Rightarrow> node \<Rightarrow> bool" where
  "href_matches m n = (case href_of n of None \<Rightarrow> False | Some h \<Rightarrow> m h)"

text \<open>\<open>getText()\<close>: the strings of the document below a node, joined; comments are left out.\<close>

fun getText :: "node \<Rightarrow> string" where
  "getText (NavigableString s) = s"
| "getText (Comment s) = []"
| "getText (Tag nm cl hr kids) = concat (map getText kids)"

subsection \<open>What the provider calls in other packages\<close>

text \<open>
  A value passed to \<open>str.format\<close> or stored in the dict of search parameters.
\<close>

datatype pval = PInt int | PStr string

text \<open>
  \<^item> \<open>strip\<close>: \<open>unicode.strip()\<close>;
  \<^item> \<open>tryInt\<close>, \<open>simplifyString\<close>, \<open>tryUrlencode\<close>, \<open>getImdb\<close> (called with \<open>multiple=True\<close>):
    helpers of CouchPotato, none of which raises on a string or a dict of strings and
    integers;
  \<^item> \<open>parseSize\<close>: the method of the provider's base class, from a size as text to a number
    of megabytes (a float; its type is left open as \<open>'sz\<close>);
  \<^item> \<open>str_format t v\<close>: \<open>t.format(v)\<close>, which raises on a template whose braces are wrong;
  \<^item> \<open>re_compile p\<close>: \<open>re.compile(p)\<close>, which raises on a pattern that is not a regular
    expression, and otherwise gives the test "the pattern is found in the string";
  \<^item> \<open>getHTMLData\<close>: the HTTP transport, from a URL to the body of the response;
  \<^item> \<open>BeautifulSoup\<close>: the HTML parser;
  \<^item> \<open>prettify\<close>: a tag rendered as text;
  \<^item> \<open>strptime\<close>: \<open>datetime.strptime(s, '%d/%m/%Y %H:%M')\<close>, which raises when the string
    does not have that format; a \<open>datetime\<close> is a number of microseconds on the time line;
  \<^item> \<open>now\<close>: what \<open>datetime.now()\<close> returns when it is called.
\<close>

record 'sz lib =
  strip :: "string \<Rightarrow> string"
  tryInt :: "string \<Rightarrow> int"
  parseSize :: "string \<Rightarrow> 'sz"
  simplifyString :: "string \<Rightarrow> string"
  tryUrlencode :: "(string \<rightharpoonup> pval) \<Rightarrow> string"
  getImdb :: "string \<Rightarrow> string list"
  str_format :: "string \<Rightarrow> pval \<Rightarrow> exn + string"
  re_compile :: "string \<Rightarrow> exn + (string \<Rightarrow> bool)"
  getHTMLData :: "string \<Rightarrow> exn + string"
  BeautifulSoup :: "string \<Rightarrow> exn + node"
  prettify :: "node \<Rightarrow> string"
  strptime :: "string \<Rightarrow> exn + int"
  now :: int

subsection \<open>The provider's state\<close>

text \<open>
  \<open>urls\<close> is a dict from endpoint names to a string or to \<open>None\<close>: a key can be missing
  (\<open>None\<close> of the map), hold Python's \<open>None\<close> (\<open>Some None\<close>) or hold a string.
\<close>

record ygg =
  urls :: "string \<rightharpoonup> string option"
  last_login_check :: bool

text \<open>The class constant \<open>limit = 50\<close>.\<close>

definition limit :: int where
  "limit = 50"

text \<open>
  \<open>refreshUrls\<close>, lines 53 to 72. The argument \<open>conf_url\<close> is the value of \<open>self.conf('url')\<close>.
  The two log calls are left out.
\<close>

definition refreshUrls :: "string \<Rightarrow> ygg \<Rightarrow> ygg" where
  "refreshUrls conf_url self =
     (let self1 = self\<lparr>last_login_check := False\<rparr> in
      case url_regexp conf_url of
        Some base \<Rightarrow>
          self1\<lparr>urls := (urls self1)
            (''login_check'' \<mapsto> Some (base @ ''/user/account''),
             ''search'' \<mapsto> Some (base @ ''/engine/search?{}''),
             ''torrent'' \<mapsto> Some (base @ ''/torrent''),
             ''url'' \<mapsto> Some (base @ ''/engine/download_torrent?id={}''))\<rparr>
      | None \<Rightarrow>
          self1\<lparr>urls := (urls self1)
            (''login_check'' \<mapsto> None,
             ''search'' \<mapsto> None,
             ''torrent'' \<mapsto> None,
             ''url'' \<mapsto> None)\<rparr>)"

text \<open>\<open>refreshLoginUrl\<close>, lines 74 to 87, on the value of \<open>self.conf('login_url')\<close>.\<close>

definition refreshLoginUrl :: "string \<Rightarrow> ygg \<Rightarrow> ygg" where
  "refreshLoginUrl conf_login_url self =
     (let self1 = self\<lparr>last_login_check := False\<rparr> in
      case url_regexp conf_login_url of
        Some base \<Rightarrow> self1\<lparr>urls := (urls self1)(''login'' \<mapsto> Some (base @ ''/user/login''))\<rparr>
      | None \<Rightarrow> self1\<lparr>urls := (urls self1)(''login'' \<mapsto> None)\<rparr>)"

subsection \<open>Results\<close>

text \<open>
  A result is the dict built at lines 227 to 238, with the two keys \<open>getMoreInfo\<close> adds
  later, absent until then. The key \<open>id\<close> is the field \<open>id_key\<close> and the key \<open>size\<close> the field
  \<open>size_key\<close>. The keys \<open>get_more_info\<close> and \<open>extra_check\<close> hold the two bound methods
  \<open>getMoreInfo\<close> and \<open>extraCheck\<close> below and are not fields.
\<close>

record 'sz release =
  id_key :: int
  name :: string
  seeders :: int
  leechers :: int
  size_key :: 'sz
  url :: string
  detail_url :: string
  verified :: bool
  description :: "string option"
  age :: "int option"

subsection \<open>parseText, loginSuccess, loginCheckSuccess\<close>

text \<open>\<open>parseText\<close>, lines 43 to 51.\<close>

definition parseText :: "'sz lib \<Rightarrow> node \<Rightarrow> string" where
  "parseText L n = strip L (getText n)"

text \<open>\<open>loginSuccess\<close>, lines 102 to 113.\<close>

definition loginSuccess :: "string \<Rightarrow> bool" where
  "loginSuccess output = (length output = 0)"

text \<open>
  The text searched at line 127, \<open>u' D\'econnexion'\<close>: a space, then the word, its second
  letter being U+00E9.
\<close>

definition deconnexion :: string where
  "deconnexion = '' D'' @ [CHR 0xC3, CHR 0xA9] @ ''connexion''"

text \<open>
  \<open>loginCheckSuccess\<close>, lines 115 to 129. The \<open>if\<close> of line 127 tests what \<open>find\<close> returned:
  \<open>None\<close> is false, and a string node is true when it is not the empty string.
\<close>

definition loginCheckSuccess :: "'sz lib \<Rightarrow> string \<Rightarrow> exn + bool" where
  "loginCheckSuccess L output =
     (case BeautifulSoup L output of
        Inl e \<Rightarrow> Inl e
      | Inr soup \<Rightarrow>
          (case find_in (is_text deconnexion) (descendants (soup, [])) of
             None \<Rightarrow> Inr False
           | Some (found, following) \<Rightarrow> Inr (string_of (fst found) \<noteq> Some [])))"

subsection \<open>getMoreInfo\<close>

text \<open>The label searched at line 144, \<open>u'Upload\'e le'\<close>.\<close>

definition uploade_le :: string where
  "uploade_le = ''Upload'' @ [CHR 0xC3, CHR 0xA9] @ '' le''"

text \<open>The number of microseconds of a day: \<open>timedelta.days\<close> is the floor of the quotient.\<close>

definition day :: int where
  "day = 86400000000"

text \<open>
  \<open>getMoreInfo\<close>, lines 131 to 148. The dict \<open>nzb\<close> is changed in place, so the function
  returns it next to its outcome: what was written before an exception stays written.
  A tag is true in the \<open>if\<close> of line 142 whatever it holds, so the test is whether
  \<open>find_next\<close> found one. \<open>s.split('(')[0]\<close> is \<open>s\<close> up to its first parenthesis.
\<close>

definition getMoreInfo :: "'sz lib \<Rightarrow> 'sz release \<Rightarrow> (exn + unit) \<times> 'sz release" where
  "getMoreInfo L nzb =
     (case getHTMLData L (detail_url nzb) of
        Inl e \<Rightarrow> (Inl e, nzb)
      | Inr data \<Rightarrow>
     (case BeautifulSoup L data of
        Inl e \<Rightarrow> (Inl e, nzb)
      | Inr soup \<Rightarrow>
     (case find_in (has_class ''description-header'') (descendants (soup, [])) of
        None \<Rightarrow> (Inl AttributeError, nzb)
      | Some (header, after_header) \<Rightarrow>
          let nzb1 = (case find_in (is_named ''div'') after_header of
                        None \<Rightarrow> nzb
                      | Some (d, after_d) \<Rightarrow> nzb\<lparr>description := Some (prettify L (fst d))\<rparr>)
          in
     (case find_in (is_text uploade_le) (descendants (soup, [])) of
        None \<Rightarrow> (Inl AttributeError, nzb1)
      | Some (label, after_label) \<Rightarrow>
     (case find_in (is_named ''td'') after_label of
        None \<Rightarrow> (Inl AttributeError, nzb1)
      | Some (line, after_line) \<Rightarrow>
     (case strptime L (strip L (takeWhile (\<lambda>c. c \<noteq> CHR ''('') (getText (fst line)))) of
        Inl e \<Rightarrow> (Inl e, nzb1)
      | Inr added \<Rightarrow> (Inr (), nzb1\<lparr>age := Some ((now L - added) div day)\<rparr>)))))))"

subsection \<open>extraCheck\<close>

text \<open>
  \<open>extraCheck\<close>, lines 150 to 167. The method only reads \<open>nzb\<close>; like \<open>getMoreInfo\<close> it
  returns the dict next to its result. The log call is left out.
\<close>

definition extraCheck :: "'sz lib \<Rightarrow> 'sz release \<Rightarrow> bool \<times> 'sz release" where
  "extraCheck L nzb =
     (let ids = getImdb L (case description nzb of None \<Rightarrow> [] | Some d \<Rightarrow> d);
          result = (if length ids \<notin> set [0, 1] then False else True)
      in (result, nzb))"

subsection \<open>buildUrl\<close>

text \<open>The dict \<open>params\<close> of lines 180 to 190.\<close>

definition buildUrl_params :: "'sz lib \<Rightarrow> string \<Rightarrow> int \<Rightarrow> (string \<rightharpoonup> pval)" where
  "buildUrl_params L title offset =
     (let params = [''category'' \<mapsto> PInt 2145,
                    ''description'' \<mapsto> PStr [],
                    ''do'' \<mapsto> PStr ''search'',
                    ''file'' \<mapsto> PStr [],
                    ''name'' \<mapsto> PStr (simplifyString L title),
                    ''sub_category'' \<mapsto> PStr ''all'',
                    ''uploader'' \<mapsto> PStr []]
      in if offset > 0 then params(''page'' \<mapsto> PInt (offset * limit)) else params)"

text \<open>
  \<open>buildUrl\<close>, lines 169 to 191. Reading a missing key of \<open>urls\<close> raises \<open>KeyError\<close>, and
  \<open>None\<close> has no method \<open>format\<close>.
\<close>

definition buildUrl :: "'sz lib \<Rightarrow> ygg \<Rightarrow> string \<Rightarrow> int \<Rightarrow> exn + string" where
  "buildUrl L self title offset =
     (case urls self ''search'' of
        None \<Rightarrow> Inl KeyError
      | Some None \<Rightarrow> Inl AttributeError
      | Some (Some template) \<Rightarrow>
          str_format L template (PStr (tryUrlencode L (buildUrl_params L title offset))))"

subsection \<open>What the specification says of a search URL\<close>

text \<open>
  These definitions are not code of the provider; they state what it is for a URL to
  have a parameter, and how the host library writes the search parameters, to be
  compared with \<open>buildUrl\<close>. \<open>decimal\<close> is an integer written in decimal digits.
  \<open>join_with c\<close> joins texts with the separator \<open>c\<close>, and \<open>split_on c\<close> is \<open>s.split(c)\<close>. The
  query of a URL is what follows its first question mark, and the parameters of a URL are
  the parts of its query between ampersands, each cut at its first equals sign into a
  name and a value.
\<close>

fun show_nat :: "nat \<Rightarrow> string" where
  "show_nat n =
     (if n < 10 then [''0123456789'' ! n]
      else show_nat (n div 10) @ [''0123456789'' ! (n mod 10)])"

definition decimal :: "int \<Rightarrow> string" where
  "decimal i = (if i < 0 then ''-'' else []) @ show_nat (nat \<bar>i\<bar>)"

fun join_with :: "char \<Rightarrow> string list \<Rightarrow> string" where
  "join_with c [] = []"
| "join_with c [x] = x"
| "join_with c (x # y # ys) = x @ c # join_with c (y # ys)"

fun split_on :: "char \<Rightarrow> string \<Rightarrow> string list" where
  "split_on c [] = [ [] ]"
| "split_on c (x # xs) =
     (if x = c then [] # split_on c xs
      else (case split_on c xs of [] \<Rightarrow> [ [x] ] | p # ps \<Rightarrow> (x # p) # ps))"

definition query_of :: "string \<Rightarrow> string" where
  "query_of u = drop 1 (dropWhile (\<lambda>c. c \<noteq> CHR ''?'') u)"

definition url_params :: "string \<Rightarrow> (string \<times> string) list" where
  "url_params u =
     map (\<lambda>p. (takeWhile (\<lambda>c. c \<noteq> CHR ''='') p, drop 1 (dropWhile (\<lambda>c. c \<noteq> CHR ''='') p)))
       (split_on (CHR ''&'') (query_of u))"

subsection \<open>_searchOnTitle\<close>

text \<open>
  Line 223, \<open>link.parent.parent.find_all('td')\<close>: every cell below the parent of the
  parent of the link, which is the table row when the link stands in a cell of the row.
  An attribute read on \<open>None\<close> raises \<open>AttributeError\<close>.
\<close>

definition columns_of :: "element \<Rightarrow> exn + node list" where
  "columns_of link =
     (case parent link of
        None \<Rightarrow> Inl AttributeError
      | Some cell \<Rightarrow>
          (case parent cell of
             None \<Rightarrow> Inl AttributeError
           | Some row \<Rightarrow> Inr (map fst (find_all (is_named ''td'') (descendants row)))))"

text \<open>
  The body of the loop over the links, lines 217 to 240, for one link: an exception,
  no result (the link is of another category), or the result to append. The local
  variables that share their name with a key of the result carry a prime. \<open>columns[i]\<close>
  raises \<open>IndexError\<close> when the row has no cell \<open>i\<close>, and \<open>.group(1)\<close> raises
  \<open>AttributeError\<close> when \<open>re.search\<close> returned \<open>None\<close>.
\<close>

definition process_link :: "'sz lib \<Rightarrow> ygg \<Rightarrow> element \<Rightarrow> exn + 'sz release option" where
  "process_link L self link =
     (case href_of (fst link) of
        None \<Rightarrow> Inl KeyError
      | Some detail_url' \<Rightarrow>
          if \<not> category_search detail_url' then Inr None
          else let name' = parseText L (fst link) in
     (case id_search detail_url' of
        None \<Rightarrow> Inl AttributeError
      | Some digits \<Rightarrow>
          let id' = tryInt L digits in
     (case columns_of link of
        Inl e \<Rightarrow> Inl e
      | Inr columns \<Rightarrow>
          if length columns \<le> 5 then Inl IndexError
          else let size' = parseSize L (parseText L (columns ! 5)) in
          if length columns \<le> 7 then Inl IndexError
          else let seeders' = tryInt L (parseText L (columns ! 7)) in
          if length columns \<le> 8 then Inl IndexError
          else let leechers' = tryInt L (parseText L (columns ! 8)) in
     (case urls self ''url'' of
        None \<Rightarrow> Inl KeyError
      | Some None \<Rightarrow> Inl AttributeError
      | Some (Some template) \<Rightarrow>
     (case str_format L template (PInt id') of
        Inl e \<Rightarrow> Inl e
      | Inr download \<Rightarrow>
          Inr (Some \<lparr>id_key = id', name = name', seeders = seeders', leechers = leechers',
                     size_key = size', url = download, detail_url = detail_url',
                     verified = True, description = None, age = None\<rparr>))))))"

text \<open>
  The loop of line 216 over the links found: it appends to \<open>results\<close> and stops at the
  first exception, with what was appended before it.
\<close>

fun extract_links ::
  "'sz lib \<Rightarrow> ygg \<Rightarrow> element list \<Rightarrow> 'sz release list \<Rightarrow> exn option \<times> 'sz release list"
where
  "extract_links L self [] results = (None, results)"
| "extract_links L self (link # links) results =
     (case process_link L self link of
        Inl e \<Rightarrow> (Some e, results)
      | Inr None \<Rightarrow> extract_links L self links results
      | Inr (Some result) \<Rightarrow> extract_links L self links (results @ [result]))"

text \<open>
  Line 245, the label of an item of the pagination control: the text of the first link
  below the item, as a number. \<open>parseText(None)\<close> raises \<open>AttributeError\<close>.
\<close>

definition page_label :: "'sz lib \<Rightarrow> element \<Rightarrow> exn + int" where
  "page_label L page =
     (case find_in (is_named ''a'') (descendants page) of
        None \<Rightarrow> Inl AttributeError
      | Some (a, following) \<Rightarrow> Inr (tryInt L (parseText L (fst a))))"

text \<open>
  The loop of line 244 over the items of the pagination control, up to the recursive
  call: \<open>True\<close> when an item's label exceeds \<open>offset + 1\<close> (the loop then calls
  \<open>_searchOnTitle\<close> and breaks), \<open>False\<close> when the items are exhausted.
\<close>

fun scan_pagination :: "'sz lib \<Rightarrow> int \<Rightarrow> element list \<Rightarrow> exn + bool" where
  "scan_pagination L offset [] = Inr False"
| "scan_pagination L offset (page # pages) =
     (case page_label L page of
        Inl e \<Rightarrow> Inl e
      | Inr next' \<Rightarrow> if next' > offset + 1 then Inr True else scan_pagination L offset pages)"

text \<open>
  Lines 211 to 246, the \<open>try\<close> block up to the recursive call, on the list \<open>results\<close>: the
  list as the block leaves it, with the exception raised, or whether line 247 is reached.
  \<open>'^{}'.format(x)\<close> is \<open>^\<close> followed by \<open>x\<close> as text, which is \<open>None\<close> for \<open>None\<close>. The
  pagination control is looked for only where the results container was found: lines 242
  to 249 stand inside the \<open>if\<close> of line 215.
\<close>

definition scan_page ::
  "'sz lib \<Rightarrow> ygg \<Rightarrow> string \<Rightarrow> int \<Rightarrow> 'sz release list \<Rightarrow> (exn + bool) \<times> 'sz release list"
where
  "scan_page L self title offset results =
     (case buildUrl L self title offset of
        Inl e \<Rightarrow> (Inl e, results)
      | Inr search_url \<Rightarrow>
     (case getHTMLData L search_url of
        Inl e \<Rightarrow> (Inl e, results)
      | Inr data \<Rightarrow>
     (case BeautifulSoup L data of
        Inl e \<Rightarrow> (Inl e, results)
      | Inr soup \<Rightarrow>
     (case urls self ''torrent'' of
        None \<Rightarrow> (Inl KeyError, results)
      | Some torrent \<Rightarrow>
          let filter' = ''^'' @ (case torrent of None \<Rightarrow> ''None'' | Some t \<Rightarrow> t) in
     (case find_in (has_class ''results'') (descendants (soup, [])) of
        None \<Rightarrow> (Inr False, results)
      | Some (resultList, after_resultList) \<Rightarrow>
     (case re_compile L filter' of
        Inl e \<Rightarrow> (Inl e, results)
      | Inr pattern \<Rightarrow>
     (case extract_links L self (find_all (href_matches pattern) (descendants resultList))
             results of
        (Some e, results1) \<Rightarrow> (Inl e, results1)
      | (None, results1) \<Rightarrow>
     (case find_in (\<lambda>n. is_named ''ul'' n \<and> has_class ''pagination'' n)
             (descendants (soup, [])) of
        None \<Rightarrow> (Inr False, results1)
      | Some (pagination, after_pagination) \<Rightarrow>
          (scan_pagination L offset (find_all (is_named ''li'') (descendants pagination)),
           results1)))))))))"

text \<open>
  What a call of \<open>_searchOnTitle\<close> leaves behind: the list \<open>results\<close> it appends to, the
  exceptions it logged, and the calls of \<open>_searchOnTitle\<close> that were entered, each with its
  title, media, quality and offset.
\<close>

record ('sz, 'm, 'q) world =
  results :: "'sz release list"
  logged :: "exn list"
  entered :: "(string \<times> 'm \<times> 'q \<times> int) list"

text \<open>The handler of lines 250 to 252: the exception is logged and the call returns.\<close>

definition except ::
  "(exn + unit) \<times> ('sz, 'm, 'q) world \<Rightarrow> (exn + unit) \<times> ('sz, 'm, 'q) world"
where
  "except r =
     (case r of
        (Inl e, w) \<Rightarrow> (Inr (), w\<lparr>logged := logged w @ [e]\<rparr>)
      | (Inr u, w) \<Rightarrow> (Inr u, w))"

text \<open>
  \<open>_searchOnTitle\<close>, lines 193 to 252, here \<open>searchOnTitle\<close>. The results list, the log and
  the record of the calls are the \<open>world\<close> it is given and returns; the list \<open>results\<close> is
  shared by the call and its recursive call. CPython bounds the depth of the call stack: the
  first argument is the number of calls of \<open>_searchOnTitle\<close> the stack still has room
  for. A call made when there is room for none raises (\<open>maximum recursion depth
  exceeded\<close>) where it is made, so inside the \<open>try\<close> of the caller when the caller is
  \<open>_searchOnTitle\<close> itself. After the recursive call returns, the loop breaks and the
  block ends.
\<close>

fun searchOnTitle ::
  "nat \<Rightarrow> 'sz lib \<Rightarrow> ygg \<Rightarrow> string \<Rightarrow> 'm \<Rightarrow> 'q \<Rightarrow> ('sz, 'm, 'q) world \<Rightarrow> int
     \<Rightarrow> (exn + unit) \<times> ('sz, 'm, 'q) world"
where
  "searchOnTitle 0 L self title media quality w offset = (Inl RecursionError, w)"
| "searchOnTitle (Suc depth) L self title media quality w offset =
     except
       (let w0 = w\<lparr>entered := entered w @ [(title, media, quality, offset)]\<rparr> in
        case scan_page L self title offset (results w0) of
          (Inl e, results1) \<Rightarrow> (Inl e, w0\<lparr>results := results1\<rparr>)
        | (Inr False, results1) \<Rightarrow> (Inr (), w0\<lparr>results := results1\<rparr>)
        | (Inr True, results1) \<Rightarrow>
            searchOnTitle depth L self title media quality (w0\<lparr>results := results1\<rparr>)
              (offset + 1))"

subsection \<open>A host and documents to run the provider on\<close>

text \<open>
  The theorems that have a \<open>lib\<close> in their statement hold for every value of it. To run
  the provider on an input, one value is fixed here. Some of its functions return, on the
  inputs they are run on below, what the function they stand for returns:
  \<^item> \<open>sample_strip\<close> removes ASCII white space at both ends;
  \<^item> \<open>sample_tryInt\<close> reads a string of ASCII digits, and gives 0 for a string that is
    not a number;
  \<^item> \<open>sample_format\<close> fills a template that ends with its only field \<open>{}\<close>;
  \<^item> \<open>sample_compile\<close> takes a pattern that is \<open>^\<close> followed by a text, and the test it
    gives is true of the strings that start with that text; the texts used below have no
    special character but the dot, and the strings tested either start with the text or
    differ from it in their first character;
  \<^item> \<open>sample_getImdb\<close> returns the identifiers (\<open>tt\<close> and seven digits) among the words of
    a text, each once, in the order in which they first occur;
  \<^item> the title is a lowercase word, which \<open>simplifyString\<close> returns as it is;
  \<^item> \<open>sample_urlencode\<close> writes the search parameters as \<open>name=value\<close> joined by
    ampersands, the values as they are (those used below have no character that is
    escaped) and the names in an order of its own, the order of a Python 2 dict being
    left open.

  The others are stand-ins: the size of a result is kept as the text of its cell, a tag is
  rendered as its text, the body of a response is the URL that was asked for, and the
  parser, the clock and \<open>strptime\<close> are set where a page is chosen.
\<close>

definition show_pval :: "pval \<Rightarrow> string" where
  "show_pval v = (case v of PStr s \<Rightarrow> s | PInt i \<Rightarrow> decimal i)"

definition sample_strip :: "string \<Rightarrow> string" where
  "sample_strip s = rev (dropWhile is_space (rev (dropWhile is_space s)))"

definition digit_value :: "char \<Rightarrow> int" where
  "digit_value c = int (length (takeWhile (\<lambda>d. d \<noteq> c) ''0123456789''))"

definition sample_tryInt :: "string \<Rightarrow> int" where
  "sample_tryInt s =
     (if s \<noteq> [] \<and> list_all is_digit s then foldl (\<lambda>a c. 10 * a + digit_value c) 0 s else 0)"

definition sample_format :: "string \<Rightarrow> pval \<Rightarrow> exn + string" where
  "sample_format template v =
     (if suffix ''{}'' template
      then Inr (take (length template - 2) template @ show_pval v)
      else Inl (LibraryError ''format''))"

definition sample_compile :: "string \<Rightarrow> exn + (string \<Rightarrow> bool)" where
  "sample_compile p =
     (case p of
        [] \<Rightarrow> Inl (LibraryError ''compile'')
      | c # text \<Rightarrow> if c = CHR ''^'' then Inr (prefix text) else Inl (LibraryError ''compile''))"

definition sample_keys :: "(string \<rightharpoonup> pval) \<Rightarrow> string list" where
  "sample_keys params =
     filter (\<lambda>k. params k \<noteq> None)
       [''category'', ''description'', ''do'', ''file'', ''name'', ''sub_category'',
        ''uploader'', ''page'']"

definition sample_urlencode :: "(string \<rightharpoonup> pval) \<Rightarrow> string" where
  "sample_urlencode params =
     join_with (CHR ''&'')
       (map (\<lambda>k. k @ ''='' @ show_pval (the (params k))) (sample_keys params))"

fun words :: "string \<Rightarrow> string \<Rightarrow> string list" where
  "words w [] = (if w = [] then [] else [w])"
| "words w (c # cs) =
     (if is_space c then (if w = [] then words [] cs else w # words [] cs)
      else words (w @ [c]) cs)"

definition sample_getImdb :: "string \<Rightarrow> string list" where
  "sample_getImdb text =
     rev (remdups (rev
       (filter (\<lambda>w. length w = 9 \<and> take 2 w = ''tt'' \<and> list_all is_digit (drop 2 w))
          (words [] text))))"

definition sample_lib :: "string lib" where
  "sample_lib =
     \<lparr>strip = sample_strip,
      tryInt = sample_tryInt,
      parseSize = (\<lambda>s. s),
      simplifyString = (\<lambda>s. s),
      tryUrlencode = sample_urlencode,
      getImdb = sample_getImdb,
      str_format = sample_format,
      re_compile = sample_compile,
      getHTMLData = (\<lambda>u. Inr u),
      BeautifulSoup = (\<lambda>d. Inl (LibraryError ''parse'')),
      prettify = getText,
      strptime = (\<lambda>s. Inl (LibraryError ''strptime'')),
      now = 0\<rparr>"

definition sample_self :: ygg where
  "sample_self = refreshUrls ''https://ygg.example/'' \<lparr>urls = Map.empty, last_login_check = True\<rparr>"

text \<open>
  Documents. \<open>cell\<close> is a table cell holding a text, \<open>sample_row\<close> a table row of nine
  cells whose second cell holds the link to the detail page, \<open>short_row\<close> the same row cut
  after its fifth cell, and \<open>sample_pagination\<close> a pagination control with one item for
  each label.
\<close>

definition cell :: "string \<Rightarrow> node" where
  "cell s = Tag ''td'' [] None [NavigableString s]"

definition link_cell :: "string \<Rightarrow> string \<Rightarrow> node" where
  "link_cell h title = Tag ''td'' [] None [Tag ''a'' [] (Some h) [NavigableString title]]"

definition sample_row :: "string \<Rightarrow> string \<Rightarrow> string \<Rightarrow> string \<Rightarrow> string \<Rightarrow> node" where
  "sample_row h title size' seeders' leechers' =
     Tag ''tr'' [] None
       [cell ''2183'', link_cell h title, cell [], cell ''3'', cell ''2 mois'', cell size',
        cell ''120'', cell seeders', cell leechers']"

definition short_row :: "string \<Rightarrow> string \<Rightarrow> node" where
  "short_row h title =
     Tag ''tr'' [] None [cell ''2183'', link_cell h title, cell [], cell ''3'', cell ''2 mois'']"

definition sample_pagination :: "string list \<Rightarrow> node" where
  "sample_pagination labels =
     Tag ''ul'' [''pagination''] None
       (map (\<lambda>l. Tag ''li'' [] None [Tag ''a'' [] (Some ''#'') [NavigableString l]]) labels)"

definition sample_results :: "node list \<Rightarrow> node" where
  "sample_results rows =
     Tag ''div'' [''table-responsive'', ''results''] None [Tag ''table'' [''table''] None rows]"

definition document :: "node list \<Rightarrow> node" where
  "document nodes = Tag ''[document]'' [] None nodes"

definition film_href :: "string \<Rightarrow> string" where
  "film_href slug = ''https://ygg.example/torrent'' @ filmvideo @ ''film/'' @ slug"

definition serie_href :: "string \<Rightarrow> string" where
  "serie_href slug = ''https://ygg.example/torrent'' @ filmvideo @ ''s'' @ [CHR 0xC3, CHR 0xA9] @ ''rie-tv/'' @ slug"

text \<open>
  The result that \<open>_searchOnTitle\<close> builds for the first row of \<open>results_page\<close> below, with a
  description or without.
\<close>

definition sample_release :: "string option \<Rightarrow> string release" where
  "sample_release d =
     \<lparr>id_key = 101, name = ''Alpha'', seeders = 12, leechers = 3, size_key = ''1.4Go'',
      url = ''https://ygg.example/engine/download_torrent?id=101'',
      detail_url = film_href ''101-alpha'', verified = True,
      description = d, age = None\<rparr>"

text \<open>
  Two account pages: the menu entry \<open>logout_page\<close> is an icon followed by the text of line
  127 alone, and the menu entry of \<open>greeting_page\<close> has the name of the user after that
  text, in the same string.
\<close>

definition logout_page :: node where
  "logout_page =
     document [Tag ''a'' [] (Some ''/user/logout'')
       [Tag ''span'' [''ico_off''] None [], NavigableString deconnexion]]"

definition greeting_page :: node where
  "greeting_page =
     document [Tag ''a'' [] (Some ''/user/logout'')
       [Tag ''span'' [''ico_off''] None [], NavigableString (deconnexion @ '' (alice)'')]]"

text \<open>
  Two detail pages, both with the label of line 144 in a table cell and the date of
  publication in the next cell. In \<open>detail_page\<close> the description header is followed by a
  block; in \<open>bare_detail_page\<close> the header closes the document, so that no \<open>div\<close> comes after
  it. \<open>detail_lib\<close> parses every body into the page given, reads the date of these pages as
  one day after the origin of the time line, and has a clock that shows three days and
  five seconds after the origin.
\<close>

definition detail_table :: node where
  "detail_table =
     Tag ''table'' [''informations''] None
       [Tag ''tr'' [] None
          [Tag ''td'' [] None [NavigableString uploade_le],
           Tag ''td'' [] None [NavigableString ''02/01/1970 00:00 (il y a 2 jours)'']]]"

definition detail_page :: node where
  "detail_page =
     document
       [detail_table,
        Tag ''h2'' [''description-header''] None [NavigableString ''Description''],
        Tag ''div'' [''default''] None [NavigableString ''Alpha, tt0111161'']]"

definition bare_detail_page :: node where
  "bare_detail_page =
     document
       [detail_table,
        Tag ''h2'' [''description-header''] None [NavigableString ''Description'']]"

text \<open>\<open>headless_detail_page\<close> has the label and the date, and no description header.\<close>

definition headless_detail_page :: node where
  "headless_detail_page = document [detail_table]"

definition sample_strptime :: "string \<Rightarrow> exn + int" where
  "sample_strptime s =
     (if s = ''02/01/1970 00:00'' then Inr day else Inl (LibraryError ''strptime''))"

definition detail_lib :: "node \<Rightarrow> string lib" where
  "detail_lib page =
     sample_lib\<lparr>BeautifulSoup := \<lambda>d. Inr page, strptime := sample_strptime,
       now := 3 * day + 5000000\<rparr>"

text \<open>What \<open>getMoreInfo\<close> finds in \<open>detail_page\<close>, each with the elements that follow it.\<close>

definition detail_header :: "element \<times> element list" where
  "detail_header =
     the (find_in (has_class ''description-header'') (descendants (detail_page, [])))"

definition detail_label :: "element \<times> element list" where
  "detail_label = the (find_in (is_text uploade_le) (descendants (detail_page, [])))"

definition detail_line :: "element \<times> element list" where
  "detail_line = the (find_in (is_named ''td'') (snd detail_label))"

subsection \<open>What the specification says of a results page\<close>

text \<open>
  These two definitions are not code of the provider; they state the claim about the
  results of a page, to be compared with \<open>scan_page\<close>. \<open>category_links\<close> are the links below
  the results container whose \<open>href\<close> the compiled filter finds and whose \<open>href\<close> has the
  category path. \<open>describes\<close> says that a result is the one the specification gives for a
  link: the identifier read from the end of the \<open>href\<close>, the size from cell 5 of the row,
  the seeders from cell 7, the leechers from cell 8 (the row having those cells), the
  download URL built from the identifier, and \<open>verified\<close> true.
\<close>

definition category_links :: "(string \<Rightarrow> bool) \<Rightarrow> element \<Rightarrow> element list" where
  "category_links pattern resultList =
     filter (\<lambda>link. case href_of (fst link) of None \<Rightarrow> False | Some h \<Rightarrow> category_search h)
       (find_all (href_matches pattern) (descendants resultList))"

definition describes :: "'sz lib \<Rightarrow> string \<Rightarrow> element \<Rightarrow> 'sz release \<Rightarrow> bool" where
  "describes L template link r =
     (href_of (fst link) = Some (detail_url r) \<and>
      map_option (tryInt L) (id_search (detail_url r)) = Some (id_key r) \<and>
      name r = parseText L (fst link) \<and>
      (case columns_of link of
         Inl e \<Rightarrow> False
       | Inr cells \<Rightarrow>
           9 \<le> length cells \<and>
           size_key r = parseSize L (parseText L (cells ! 5)) \<and>
           seeders r = tryInt L (parseText L (cells ! 7)) \<and>
           leechers r = tryInt L (parseText L (cells ! 8))) \<and>
      str_format L template (PInt (id_key r)) = Inr (url r) \<and>
      verified r \<and> description r = None \<and> age r = None)"

text \<open>
  A link is well formed when a result describes it: its \<open>href\<close> ends with an identifier and
  a slug, its row has nine cells, and the download template can be filled.
\<close>

definition well_formed :: "'sz lib \<Rightarrow> string \<Rightarrow> element \<Rightarrow> bool" where
  "well_formed L template link =
     (case href_of (fst link) of
        None \<Rightarrow> False
      | Some h \<Rightarrow>
          (case id_search h of
             None \<Rightarrow> False
           | Some digits \<Rightarrow>
               (case columns_of link of
                  Inl e \<Rightarrow> False
                | Inr cells \<Rightarrow>
                    9 \<le> length cells \<and>
                    (case str_format L template (PInt (tryInt L digits)) of
                       Inl e \<Rightarrow> False
                     | Inr download \<Rightarrow> True))))"

text \<open>
  Results pages. \<open>results_page\<close> lists two films and, between them, an episode of a
  series, and has a pagination control for three pages. In \<open>short_page\<close> the row of the
  second film has five cells only. In \<open>malformed_page\<close> the \<open>href\<close> of the first film has no
  identifier. \<open>paginated_page\<close> has the pagination control and no results container.
  \<open>page_lib\<close> parses every body into the page given, and \<open>container\<close> is the results
  container of a page with the elements that follow it.
\<close>

definition results_page :: node where
  "results_page =
     document
       [sample_results
          [sample_row (film_href ''101-alpha'') ''Alpha'' ''1.4Go'' ''12'' ''3'',
           sample_row (serie_href ''102-beta'') ''Beta'' ''2Go'' ''4'' ''4'',
           sample_row (film_href ''103-gamma'') '' Gamma '' ''700Mo'' ''7'' ''0''],
        sample_pagination [''1'', ''2'', ''3'']]"

definition short_page :: node where
  "short_page =
     document
       [sample_results
          [sample_row (film_href ''101-alpha'') ''Alpha'' ''1.4Go'' ''12'' ''3'',
           short_row (film_href ''104-delta'') ''Delta'',
           sample_row (film_href ''103-gamma'') '' Gamma '' ''700Mo'' ''7'' ''0'']]"

definition malformed_page :: node where
  "malformed_page =
     document
       [sample_results
          [sample_row (film_href ''alpha'') ''Alpha'' ''1.4Go'' ''12'' ''3'',
           sample_row (film_href ''103-gamma'') '' Gamma '' ''700Mo'' ''7'' ''0'']]"

definition paginated_page :: node where
  "paginated_page = document [sample_pagination [''1'', ''2'', ''3'']]"

definition page_lib :: "node \<Rightarrow> string lib" where
  "page_lib page = sample_lib\<lparr>BeautifulSoup := \<lambda>d. Inr page\<rparr>"

definition container :: "node \<Rightarrow> element \<times> element list" where
  "container page = the (find_in (has_class ''results'') (descendants (page, [])))"

definition sample_pattern :: "string \<Rightarrow> bool" where
  "sample_pattern = prefix ''https://ygg.example/torrent''"

text \<open>
  \<open>small_page\<close> lists one film and has a pagination control for two pages;
  \<open>pagination_of\<close> is the pagination control of a page with the elements that follow it.
\<close>

definition small_page :: node where
  "small_page =
     document
       [sample_results [sample_row (film_href ''101-alpha'') ''Alpha'' ''1.4Go'' ''12'' ''3''],
        sample_pagination [''1'', ''2'']]"

definition pagination_of :: "node \<Rightarrow> element \<times> element list" where
  "pagination_of page =
     the (find_in (\<lambda>n. is_named ''ul'' n \<and> has_class ''pagination'' n) (descendants (page, [])))"

definition empty_world :: "(string, unit, unit) world" where
  "empty_world = \<lparr>results = [], logged = [], entered = []\<rparr>"

section \<open>Theorems\<close>

subsection \<open>The pattern of the base url\<close>

lemma url_regexp_SomeD:
  assumes "url_regexp s = Some base"
  shows "take 8 s = ''https://'' \<and>
         takeWhile not_slash_space (drop 8 s) \<noteq> [] \<and>
         base = ''https://'' @ takeWhile not_slash_space (drop 8 s)"
  using assms unfolding url_regexp_def by (simp split: if_splits)

lemma takeWhile_run:
  "(\<forall>c \<in> set host. P c) \<Longrightarrow> rest = [] \<or> \<not> P (hd rest) \<Longrightarrow> takeWhile P (host @ rest) = host"
  by (cases rest) (simp_all add: takeWhile_append2)

text \<open>
  What \<open>url_regexp\<close> matches: \<open>https://\<close>, then one character or more that is neither a
  slash nor white space, up to the end of the string or to the first slash or white
  space. The group is the string up to there.
\<close>

lemma url_regexp_Some_iff:
  "url_regexp s = Some base \<longleftrightarrow>
     (\<exists>host rest. s = ''https://'' @ host @ rest \<and> host \<noteq> [] \<and>
        (\<forall>c \<in> set host. not_slash_space c) \<and>
        (rest = [] \<or> \<not> not_slash_space (hd rest)) \<and>
        base = ''https://'' @ host)" (is "?L \<longleftrightarrow> ?R")
proof
  assume a: ?L
  define host where "host = takeWhile not_slash_space (drop 8 s)"
  define rest where "rest = dropWhile not_slash_space (drop 8 s)"
  from url_regexp_SomeD[OF a] have t: "take 8 s = ''https://''" and h: "host \<noteq> []"
    and b: "base = ''https://'' @ host"
    unfolding host_def by blast+
  have "s = take 8 s @ (host @ rest)"
    unfolding host_def rest_def takeWhile_dropWhile_id by (rule append_take_drop_id[symmetric])
  then have s: "s = ''https://'' @ host @ rest" unfolding t .
  have r: "rest = [] \<or> \<not> not_slash_space (hd rest)"
    unfolding rest_def by (metis hd_dropWhile)
  have al: "\<forall>c \<in> set host. not_slash_space c"
    unfolding host_def by (blast dest: set_takeWhileD)
  from s h al r b show ?R by blast
next
  assume ?R
  then obtain host rest where s: "s = ''https://'' @ host @ rest" and h: "host \<noteq> []"
    and a: "\<forall>c \<in> set host. not_slash_space c"
    and r: "rest = [] \<or> \<not> not_slash_space (hd rest)"
    and b: "base = ''https://'' @ host"
    by blast
  have d: "drop 8 s = host @ rest" and t: "take 8 s = ''https://''" unfolding s by simp_all
  have "takeWhile not_slash_space (drop 8 s) = host"
    unfolding d using a r by (rule takeWhile_run)
  then show ?L
    unfolding url_regexp_def using t h b by simp
qed

subsection \<open>The pattern of the identifier\<close>

lemma dropWhile_run:
  "(\<forall>c \<in> set host. P c) \<Longrightarrow> rest = [] \<or> \<not> P (hd rest) \<Longrightarrow> dropWhile P (host @ rest) = rest"
  by (cases rest) (simp_all add: dropWhile_append2)

text \<open>
  What \<open>id_match\<close> matches: a slash, one digit or more, a hyphen, one character or more
  that is neither a slash nor white space, and then the end of the string or a line feed
  that ends it. The group is the run of digits.
\<close>

lemma id_match_Some_iff:
  "id_match s = Some ds \<longleftrightarrow>
     (\<exists>slug tail. s = ''/'' @ ds @ ''-'' @ slug @ tail \<and>
        ds \<noteq> [] \<and> (\<forall>c \<in> set ds. is_digit c) \<and>
        slug \<noteq> [] \<and> (\<forall>c \<in> set slug. not_slash_space c) \<and>
        (tail = [] \<or> tail = [CHR 0x0A]))" (is "?L \<longleftrightarrow> ?R")
proof
  assume l: ?L
  then obtain r where s: "s = CHR ''/'' # r"
    by (cases s) (auto simp add: id_match_def split: if_splits)
  define r1 where "r1 = dropWhile is_digit r"
  have r: "r = takeWhile is_digit r @ r1" by (simp add: r1_def)
  from l s have d: "takeWhile is_digit r = ds" and dn: "ds \<noteq> []"
    by (auto simp add: id_match_def Let_def split: if_splits list.splits)
  from l s obtain r2 where r1: "r1 = CHR ''-'' # r2"
    by (auto simp add: id_match_def Let_def r1_def split: if_splits list.splits)
  define slug where "slug = takeWhile not_slash_space r2"
  define tail where "tail = dropWhile not_slash_space r2"
  have r2: "r2 = slug @ tail" by (simp add: slug_def tail_def)
  from l s r1 have sn: "slug \<noteq> []" and t: "tail = [] \<or> tail = [CHR 0x0A]"
    by (auto simp add: id_match_def Let_def r1_def slug_def tail_def split: if_splits list.splits)
  have "s = ''/'' @ ds @ ''-'' @ slug @ tail"
    using s r d r1 r2 by simp
  moreover have "\<forall>c \<in> set ds. is_digit c"
    using d by (blast dest: set_takeWhileD)
  moreover have "\<forall>c \<in> set slug. not_slash_space c"
    unfolding slug_def by (blast dest: set_takeWhileD)
  ultimately show ?R using dn sn t by blast
next
  assume ?R
  then obtain slug tail where s: "s = ''/'' @ ds @ ''-'' @ slug @ tail"
    and dn: "ds \<noteq> []" and dd: "\<forall>c \<in> set ds. is_digit c"
    and sn: "slug \<noteq> []" and ss: "\<forall>c \<in> set slug. not_slash_space c"
    and t: "tail = [] \<or> tail = [CHR 0x0A]"
    by blast
  have hyphen: "\<not> is_digit (CHR ''-'')" by (simp add: is_digit_def)
  have feed: "\<not> not_slash_space (CHR 0x0A)" by (simp add: not_slash_space_def is_space_def)
  have 1: "takeWhile is_digit (ds @ ''-'' @ slug @ tail) = ds"
    using dd hyphen by (intro takeWhile_run) simp_all
  have 2: "dropWhile is_digit (ds @ ''-'' @ slug @ tail) = ''-'' @ slug @ tail"
    using dd hyphen by (intro dropWhile_run) simp_all
  have 3: "takeWhile not_slash_space (slug @ tail) = slug"
    using ss t feed by (intro takeWhile_run) auto
  have 4: "dropWhile not_slash_space (slug @ tail) = tail"
    using ss t feed by (intro dropWhile_run) auto
  show ?L
    unfolding s using 1 2 3 4 dn sn t ss by (auto simp add: id_match_def Let_def)
qed

text \<open>\<open>id_search\<close> finds the group of the first suffix of the string that \<open>id_match\<close> matches.\<close>

lemma id_search_None_iff:
  "id_search s = None \<longleftrightarrow> (\<forall>before rest. s = before @ rest \<longrightarrow> id_match rest = None)"
proof (induction s)
  case Nil
  show ?case by (simp add: id_match_def)
next
  case (Cons c cs)
  have "(\<forall>before rest. c # cs = before @ rest \<longrightarrow> id_match rest = None) \<longleftrightarrow>
          id_match (c # cs) = None \<and> (\<forall>before rest. cs = before @ rest \<longrightarrow> id_match rest = None)"
    (is "?all \<longleftrightarrow> ?here \<and> ?later")
  proof
    assume a: ?all
    have "c # cs = [] @ (c # cs)" by simp
    with a have ?here by blast
    moreover have ?later
    proof (intro allI impI)
      fix before rest
      assume "cs = before @ rest"
      then have "c # cs = (c # before) @ rest" by simp
      with a show "id_match rest = None" by blast
    qed
    ultimately show "?here \<and> ?later" by blast
  next
    assume b: "?here \<and> ?later"
    show ?all
    proof (intro allI impI)
      fix before rest
      assume e: "c # cs = before @ rest"
      show "id_match rest = None"
      proof (cases before)
        case Nil
        with e b show ?thesis by simp
      next
        case (Cons x xs)
        with e have "cs = xs @ rest" by simp
        with b show ?thesis by blast
      qed
    qed
  qed
  with Cons.IH show ?case by (simp split: option.split)
qed

lemma id_search_SomeD:
  "id_search s = Some ds \<Longrightarrow> \<exists>before rest. s = before @ rest \<and> id_match rest = Some ds"
proof (induction s)
  case Nil
  then show ?case by simp
next
  case (Cons c cs)
  show ?case
  proof (cases "id_match (c # cs)")
    case None
    with Cons.prems have "id_search cs = Some ds" by simp
    with Cons.IH obtain before rest where "cs = before @ rest" and m: "id_match rest = Some ds"
      by blast
    then have "c # cs = (c # before) @ rest" by simp
    with m show ?thesis by blast
  next
    case (Some g)
    with Cons.prems have "id_match (c # cs) = Some ds" by simp
    moreover have "c # cs = [] @ (c # cs)" by simp
    ultimately show ?thesis by blast
  qed
qed

subsection \<open>The pattern of the category\<close>

text \<open>A literal pattern is found in the strings that contain it.\<close>

lemma re_find_iff: "re_find p s \<longleftrightarrow> (\<exists>before rest. s = before @ p @ rest)"
proof (induction s)
  case Nil
  show ?case by auto
next
  case (Cons c cs)
  have "(\<exists>before rest. c # cs = before @ p @ rest) \<longleftrightarrow>
          prefix p (c # cs) \<or> (\<exists>before rest. cs = before @ p @ rest)"
  proof
    assume "\<exists>before rest. c # cs = before @ p @ rest"
    then obtain before rest where e: "c # cs = before @ p @ rest" by blast
    show "prefix p (c # cs) \<or> (\<exists>before rest. cs = before @ p @ rest)"
    proof (cases before)
      case Nil
      with e have "prefix p (c # cs)" by (simp add: prefix_def)
      then show ?thesis by blast
    next
      case (Cons x xs)
      with e have "cs = xs @ p @ rest" by simp
      then show ?thesis by blast
    qed
  next
    assume "prefix p (c # cs) \<or> (\<exists>before rest. cs = before @ p @ rest)"
    then show "\<exists>before rest. c # cs = before @ p @ rest"
    proof
      assume "prefix p (c # cs)"
      then obtain rest where "c # cs = [] @ p @ rest" by (auto simp add: prefix_def)
      then show ?thesis by blast
    next
      assume "\<exists>before rest. cs = before @ p @ rest"
      then obtain before rest where "cs = before @ p @ rest" by blast
      then have "c # cs = (c # before) @ p @ rest" by simp
      then show ?thesis by blast
    qed
  qed
  with Cons.IH show ?case by simp
qed

subsection \<open>refreshUrls\<close>

text \<open>
  C6. For every configured url that \<open>url_regexp\<close> matches, \<open>refreshUrls\<close> sets the four
  endpoints \<open>login_check\<close>, \<open>search\<close>, \<open>torrent\<close> and \<open>url\<close> to the matched base followed by
  \<open>/user/account\<close>, \<open>/engine/search?{}\<close>, \<open>/torrent\<close> and \<open>/engine/download_torrent?id={}\<close>
  (the braces are the field that \<open>format\<close> fills with the query and with the id); for every
  url it does not match, the four endpoints are set to \<open>None\<close>. By \<open>url_regexp_Some_iff\<close>
  the urls matched are those that start with \<open>https://\<close> and at least one character
  that is neither a slash nor white space, the base being that text up to the first
  slash or white space.
\<close>

theorem refreshUrls_endpoints:
  "(case url_regexp conf_url of
      Some base \<Rightarrow>
        urls (refreshUrls conf_url self) ''login_check'' = Some (Some (base @ ''/user/account'')) \<and>
        urls (refreshUrls conf_url self) ''search'' = Some (Some (base @ ''/engine/search?{}'')) \<and>
        urls (refreshUrls conf_url self) ''torrent'' = Some (Some (base @ ''/torrent'')) \<and>
        urls (refreshUrls conf_url self) ''url''
          = Some (Some (base @ ''/engine/download_torrent?id={}''))
    | None \<Rightarrow>
        urls (refreshUrls conf_url self) ''login_check'' = Some None \<and>
        urls (refreshUrls conf_url self) ''search'' = Some None \<and>
        urls (refreshUrls conf_url self) ''torrent'' = Some None \<and>
        urls (refreshUrls conf_url self) ''url'' = Some None)"
  by (simp add: refreshUrls_def split: option.split)

lemma url_regexp_https_example:
  "url_regexp ''https://ygg.example/engine'' = Some ''https://ygg.example''"
  by code_simp

lemma url_regexp_http_example: "url_regexp ''http://ygg.example'' = None"
  by code_simp

theorem refreshUrls_endpoints_witness:
  "url_regexp ''https://ygg.example/engine'' = Some ''https://ygg.example'' \<and>
   urls (refreshUrls ''https://ygg.example/engine'' \<lparr>urls = Map.empty, last_login_check = True\<rparr>)
     ''login_check'' = Some (Some ''https://ygg.example/user/account'') \<and>
   urls (refreshUrls ''https://ygg.example/engine'' \<lparr>urls = Map.empty, last_login_check = True\<rparr>)
     ''search'' = Some (Some ''https://ygg.example/engine/search?{}'') \<and>
   urls (refreshUrls ''https://ygg.example/engine'' \<lparr>urls = Map.empty, last_login_check = True\<rparr>)
     ''torrent'' = Some (Some ''https://ygg.example/torrent'') \<and>
   urls (refreshUrls ''https://ygg.example/engine'' \<lparr>urls = Map.empty, last_login_check = True\<rparr>)
     ''url'' = Some (Some ''https://ygg.example/engine/download_torrent?id={}'') \<and>
   url_regexp ''http://ygg.example'' = None \<and>
   urls (refreshUrls ''http://ygg.example'' \<lparr>urls = Map.empty, last_login_check = True\<rparr>)
     ''login_check'' = Some None \<and>
   urls (refreshUrls ''http://ygg.example'' \<lparr>urls = Map.empty, last_login_check = True\<rparr>)
     ''search'' = Some None \<and>
   urls (refreshUrls ''http://ygg.example'' \<lparr>urls = Map.empty, last_login_check = True\<rparr>)
     ''torrent'' = Some None \<and>
   urls (refreshUrls ''http://ygg.example'' \<lparr>urls = Map.empty, last_login_check = True\<rparr>)
     ''url'' = Some None"
  using refreshUrls_endpoints
      [of "''https://ygg.example/engine''" "\<lparr>urls = Map.empty, last_login_check = True\<rparr>"]
    refreshUrls_endpoints
      [of "''http://ygg.example''" "\<lparr>urls = Map.empty, last_login_check = True\<rparr>"]
  unfolding url_regexp_https_example url_regexp_http_example by simp

subsection \<open>buildUrl\<close>

lemma split_on_plain: "c \<notin> set p \<Longrightarrow> split_on c p = [p]"
  by (induction p) auto

lemma split_on_append: "c \<notin> set p \<Longrightarrow> split_on c (p @ c # rest) = p # split_on c rest"
  by (induction p) auto

lemma split_on_join:
  "pieces \<noteq> [] \<Longrightarrow> \<forall>p \<in> set pieces. c \<notin> set p \<Longrightarrow> split_on c (join_with c pieces) = pieces"
proof (induction c pieces rule: join_with.induct)
  case (1 c)
  then show ?case by simp
next
  case (2 c x)
  then show ?case by (simp add: split_on_plain)
next
  case (3 c x y ys)
  from "3.prems" have x: "c \<notin> set x" and rest: "\<forall>p \<in> set (y # ys). c \<notin> set p" by simp_all
  have "split_on c (join_with c (y # ys)) = y # ys"
    using rest by (intro "3.IH") simp_all
  with x show ?case by (simp add: split_on_append)
qed

lemma query_of_search:
  assumes "CHR ''?'' \<notin> set base"
  shows "query_of (base @ ''/engine/search?'' @ q) = q"
proof -
  have "dropWhile (\<lambda>c. c \<noteq> CHR ''?'') ((base @ ''/engine/search'') @ CHR ''?'' # q)
          = CHR ''?'' # q"
    using assms by (intro dropWhile_run) auto
  then show ?thesis by (simp add: query_of_def)
qed

lemma cut_at_equals:
  assumes "CHR ''='' \<notin> set k"
  shows "takeWhile (\<lambda>c. c \<noteq> CHR ''='') (k @ ''='' @ e) = k"
    and "drop 1 (dropWhile (\<lambda>c. c \<noteq> CHR ''='') (k @ ''='' @ e)) = e"
proof -
  have "takeWhile (\<lambda>c. c \<noteq> CHR ''='') (k @ CHR ''='' # e) = k"
    using assms by (intro takeWhile_run) auto
  then show "takeWhile (\<lambda>c. c \<noteq> CHR ''='') (k @ ''='' @ e) = k" by simp
  have "dropWhile (\<lambda>c. c \<noteq> CHR ''='') (k @ CHR ''='' # e) = CHR ''='' # e"
    using assms by (intro dropWhile_run) auto
  then show "drop 1 (dropWhile (\<lambda>c. c \<noteq> CHR ''='') (k @ ''='' @ e)) = e" by simp
qed

lemma dom_buildUrl_params:
  "dom (buildUrl_params L title offset) =
     {''category'', ''description'', ''do'', ''file'', ''name'', ''sub_category'', ''uploader''}
       \<union> (if offset > 0 then {''page''} else {})"
  by (auto simp add: buildUrl_params_def Let_def split: if_splits)

lemma buildUrl_params_page:
  "buildUrl_params L title offset ''page''
     = (if offset > 0 then Some (PInt (offset * 50)) else None)"
  by (simp add: buildUrl_params_def limit_def)

lemma buildUrl_params_keys:
  assumes "k \<in> dom (buildUrl_params L title offset)"
  shows "CHR ''&'' \<notin> set k \<and> CHR ''='' \<notin> set k"
  using assms unfolding dom_buildUrl_params by (auto split: if_splits)

text \<open>
  C7. Let the search endpoint be the one \<open>refreshUrls\<close> sets from a base without a question
  mark, and let the host library do its work: \<open>format\<close> fills the field of that template
  with the text it is given, and \<open>tryUrlencode\<close> writes the dict \<open>params\<close> as \<open>name=value\<close>
  joined by ampersands, once for each key \<open>ks\<close> of the dict in some order, a value being
  written by \<open>enc\<close> without an ampersand and an integer in decimal digits. Then \<open>buildUrl\<close>
  returns a URL, the parameters of that URL are the entries of the dict; for every
  title the URL has no parameter \<open>page\<close> when the offset is 0 (or negative), and when
  the offset is positive it has the parameter \<open>page\<close> with the value \<open>offset * 50\<close>, and no
  other value.
\<close>

theorem buildUrl_page:
  fixes enc :: "pval \<Rightarrow> string"
  assumes endpoint: "urls self ''search'' = Some (Some (base @ ''/engine/search?{}''))"
    and base: "CHR ''?'' \<notin> set base"
    and format: "\<And>q. str_format L (base @ ''/engine/search?{}'') (PStr q)
                       = Inr (base @ ''/engine/search?'' @ q)"
    and encoder: "tryUrlencode L (buildUrl_params L title offset)
                    = join_with (CHR ''&'')
                        (map (\<lambda>k. k @ ''='' @ enc (the (buildUrl_params L title offset k))) ks)"
    and keys: "set ks = dom (buildUrl_params L title offset)"
    and escaped: "\<forall>k \<in> set ks. CHR ''&'' \<notin> set (enc (the (buildUrl_params L title offset k)))"
    and ints: "\<And>n. enc (PInt n) = decimal n"
  shows "case buildUrl L self title offset of
           Inl e \<Rightarrow> False
         | Inr u \<Rightarrow>
             url_params u = map (\<lambda>k. (k, enc (the (buildUrl_params L title offset k)))) ks \<and>
             (offset \<le> 0 \<longrightarrow> ''page'' \<notin> fst ` set (url_params u)) \<and>
             (0 < offset \<longrightarrow>
                (''page'', decimal (offset * 50)) \<in> set (url_params u) \<and>
                (\<forall>v. (''page'', v) \<in> set (url_params u) \<longrightarrow> v = decimal (offset * 50)))"
proof -
  let ?params = "buildUrl_params L title offset"
  let ?piece = "\<lambda>k. k @ ''='' @ enc (the (?params k))"
  let ?u = "base @ ''/engine/search?'' @ tryUrlencode L ?params"
  have url: "buildUrl L self title offset = Inr ?u"
    using endpoint format by (simp add: buildUrl_def)
  have "''category'' \<in> dom ?params" unfolding dom_buildUrl_params by simp
  with keys have nonempty: "map ?piece ks \<noteq> []" by auto
  have plain: "\<forall>p \<in> set (map ?piece ks). CHR ''&'' \<notin> set p"
  proof
    fix p
    assume "p \<in> set (map ?piece ks)"
    then obtain k where k: "k \<in> set ks" and p: "p = ?piece k" by auto
    from k keys have "CHR ''&'' \<notin> set k" using buildUrl_params_keys by blast
    moreover from k escaped have "CHR ''&'' \<notin> set (enc (the (?params k)))" by blast
    ultimately show "CHR ''&'' \<notin> set p" unfolding p by simp
  qed
  have "split_on (CHR ''&'') (query_of ?u) = map ?piece ks"
    unfolding query_of_search [OF base] encoder using nonempty plain by (rule split_on_join)
  then have "url_params ?u
      = map (\<lambda>k. (takeWhile (\<lambda>c. c \<noteq> CHR ''='') (?piece k),
                   drop 1 (dropWhile (\<lambda>c. c \<noteq> CHR ''='') (?piece k)))) ks"
    by (simp add: url_params_def comp_def)
  also have "\<dots> = map (\<lambda>k. (k, enc (the (?params k)))) ks"
  proof (rule map_cong [OF refl])
    fix k
    assume "k \<in> set ks"
    with keys have plain_key: "CHR ''='' \<notin> set k" using buildUrl_params_keys by blast
    show "(takeWhile (\<lambda>c. c \<noteq> CHR ''='') (?piece k),
                drop 1 (dropWhile (\<lambda>c. c \<noteq> CHR ''='') (?piece k)))
               = (k, enc (the (?params k)))"
      unfolding cut_at_equals [OF plain_key] by (rule refl)
  qed
  finally have params: "url_params ?u = map (\<lambda>k. (k, enc (the (?params k)))) ks" .
  have names: "fst ` set (url_params ?u) = dom ?params"
    unfolding params using keys by (auto simp add: image_iff)
  have absent: "''page'' \<notin> fst ` set (url_params ?u)" if "offset \<le> 0"
    unfolding names dom_buildUrl_params using that by simp
  have single: "v = decimal (offset * 50)" if "(''page'', v) \<in> set (url_params ?u)" for v
  proof -
    from that have v: "v = enc (the (?params ''page''))" and "''page'' \<in> set ks"
      unfolding params by auto
    with keys have "''page'' \<in> dom ?params" by simp
    then have "0 < offset" unfolding dom_buildUrl_params by (auto split: if_splits)
    then show ?thesis unfolding v by (simp add: buildUrl_params_page ints)
  qed
  have present: "(''page'', decimal (offset * 50)) \<in> set (url_params ?u)" if "0 < offset"
  proof -
    from that have "''page'' \<in> dom ?params" unfolding dom_buildUrl_params by simp
    with keys have "''page'' \<in> set ks" by simp
    then have "(''page'', enc (the (?params ''page''))) \<in> set (url_params ?u)"
      unfolding params by auto
    with that show ?thesis by (simp add: buildUrl_params_page ints)
  qed
  show ?thesis
    unfolding url using params absent present single by simp
qed

lemma sample_search_endpoint:
  "urls sample_self ''search'' = Some (Some ''https://ygg.example/engine/search?{}'')"
  by code_simp

lemma sample_buildUrl_0:
  "buildUrl sample_lib sample_self ''alpha'' 0
     = Inr ''https://ygg.example/engine/search?category=2145&description=&do=search&file=&name=alpha&sub_category=all&uploader=''"
  by code_simp

lemma sample_buildUrl_2:
  "buildUrl sample_lib sample_self ''alpha'' 2
     = Inr ''https://ygg.example/engine/search?category=2145&description=&do=search&file=&name=alpha&sub_category=all&uploader=&page=100''"
  by code_simp

lemma sample_format_search:
  "str_format sample_lib (''https://ygg.example'' @ ''/engine/search?{}'') (PStr q)
     = Inr (''https://ygg.example'' @ ''/engine/search?'' @ q)"
  by (simp add: sample_lib_def sample_format_def show_pval_def suffix_to_prefix)

lemma sample_urlencode_pieces:
  "tryUrlencode sample_lib (buildUrl_params sample_lib title offset)
     = join_with (CHR ''&'')
         (map (\<lambda>k. k @ ''='' @ show_pval (the (buildUrl_params sample_lib title offset k)))
            (sample_keys (buildUrl_params sample_lib title offset)))"
  by (simp add: sample_lib_def sample_urlencode_def)

lemma sample_keys_dom:
  "set (sample_keys (buildUrl_params L title offset)) = dom (buildUrl_params L title offset)"
  unfolding dom_buildUrl_params
  by (auto simp add: sample_keys_def buildUrl_params_def Let_def split: if_splits)

lemma sample_values_0:
  "\<forall>k \<in> set (sample_keys (buildUrl_params sample_lib ''alpha'' 0)).
     CHR ''&'' \<notin> set (show_pval (the (buildUrl_params sample_lib ''alpha'' 0 k)))"
  by code_simp

lemma sample_values_2:
  "\<forall>k \<in> set (sample_keys (buildUrl_params sample_lib ''alpha'' 2)).
     CHR ''&'' \<notin> set (show_pval (the (buildUrl_params sample_lib ''alpha'' 2 k)))"
  by code_simp

lemma show_pval_decimal: "show_pval (PInt n) = decimal n"
  by (simp add: show_pval_def)

lemma decimal_100: "decimal (2 * 50) = ''100''"
  by code_simp

theorem buildUrl_page_witness:
  "buildUrl sample_lib sample_self ''alpha'' 0
     = Inr ''https://ygg.example/engine/search?category=2145&description=&do=search&file=&name=alpha&sub_category=all&uploader='' \<and>
   ''page'' \<notin> fst ` set (url_params
     ''https://ygg.example/engine/search?category=2145&description=&do=search&file=&name=alpha&sub_category=all&uploader='') \<and>
   buildUrl sample_lib sample_self ''alpha'' 2
     = Inr ''https://ygg.example/engine/search?category=2145&description=&do=search&file=&name=alpha&sub_category=all&uploader=&page=100'' \<and>
   (''page'', ''100'') \<in> set (url_params
     ''https://ygg.example/engine/search?category=2145&description=&do=search&file=&name=alpha&sub_category=all&uploader=&page=100'')"
proof -
  have endpoint: "urls sample_self ''search''
                    = Some (Some (''https://ygg.example'' @ ''/engine/search?{}''))"
    using sample_search_endpoint by simp
  have base: "CHR ''?'' \<notin> set ''https://ygg.example''" by simp
  note at_0 = buildUrl_page [OF endpoint base sample_format_search sample_urlencode_pieces
      sample_keys_dom sample_values_0 show_pval_decimal]
  note at_2 = buildUrl_page [OF endpoint base sample_format_search sample_urlencode_pieces
      sample_keys_dom sample_values_2 show_pval_decimal]
  from at_0 have "0 \<le> (0::int) \<longrightarrow> ''page'' \<notin> fst ` set (url_params
     ''https://ygg.example/engine/search?category=2145&description=&do=search&file=&name=alpha&sub_category=all&uploader='')"
    unfolding sample_buildUrl_0 sum.case by (rule conjunct1 [OF conjunct2])
  then have absent: "''page'' \<notin> fst ` set (url_params
     ''https://ygg.example/engine/search?category=2145&description=&do=search&file=&name=alpha&sub_category=all&uploader='')"
    by simp
  from at_2 have "0 < (2::int) \<longrightarrow> (''page'', decimal (2 * 50)) \<in> set (url_params
     ''https://ygg.example/engine/search?category=2145&description=&do=search&file=&name=alpha&sub_category=all&uploader=&page=100'') \<and>
     (\<forall>v. (''page'', v) \<in> set (url_params
     ''https://ygg.example/engine/search?category=2145&description=&do=search&file=&name=alpha&sub_category=all&uploader=&page=100'')
        \<longrightarrow> v = decimal (2 * 50))"
    unfolding sample_buildUrl_2 sum.case by (rule conjunct2 [OF conjunct2])
  then have present: "(''page'', decimal (2 * 50)) \<in> set (url_params
     ''https://ygg.example/engine/search?category=2145&description=&do=search&file=&name=alpha&sub_category=all&uploader=&page=100'')"
    by simp
  from absent present show ?thesis
    unfolding decimal_100 using sample_buildUrl_0 sample_buildUrl_2 by blast
qed

subsection \<open>extraCheck\<close>

text \<open>
  C9. \<open>getImdb\<close> lists the identifiers it finds in the description (the empty string when
  the result has none), each once. \<open>extraCheck\<close> returns true when that text holds no
  identifier or one, and false when it holds two or more different ones.
\<close>

theorem extraCheck_verdict:
  assumes "text = (case description nzb of None \<Rightarrow> [] | Some d \<Rightarrow> d)"
    and "distinct (getImdb L text)"
  shows "fst (extraCheck L nzb) = (card (set (getImdb L text)) \<le> 1)"
proof -
  have "card (set (getImdb L text)) = length (getImdb L text)"
    using assms(2) by (rule distinct_card)
  moreover have "fst (extraCheck L nzb) = (length (getImdb L text) \<le> 1)"
    unfolding assms(1) by (auto simp add: extraCheck_def Let_def le_Suc_eq)
  ultimately show ?thesis by simp
qed

lemma sample_getImdb_two:
  "sample_getImdb ''tt0111161 tt0068646 tt0111161'' = [''tt0111161'', ''tt0068646'']"
  by code_simp

lemma sample_getImdb_one: "sample_getImdb ''see tt0111161'' = [''tt0111161'']"
  by code_simp

lemma sample_getImdb_none: "sample_getImdb [] = []"
  by code_simp

theorem extraCheck_verdict_witness:
  "\<not> fst (extraCheck sample_lib (sample_release (Some ''tt0111161 tt0068646 tt0111161''))) \<and>
   fst (extraCheck sample_lib (sample_release (Some ''see tt0111161''))) \<and>
   fst (extraCheck sample_lib (sample_release None))"
  using extraCheck_verdict
      [of "''tt0111161 tt0068646 tt0111161''"
          "sample_release (Some ''tt0111161 tt0068646 tt0111161'')" sample_lib]
    extraCheck_verdict [of "''see tt0111161''" "sample_release (Some ''see tt0111161'')" sample_lib]
    extraCheck_verdict [of "[]" "sample_release None" sample_lib]
  by (simp add: sample_release_def sample_lib_def sample_getImdb_two sample_getImdb_one
      sample_getImdb_none)

text \<open>
  C10. \<open>extraCheck\<close> leaves the result as it was, and its verdict is the same for two
  results that have the same description.
\<close>

theorem extraCheck_frame:
  "snd (extraCheck L nzb) = nzb \<and>
   (description nzb = description nzb' \<longrightarrow> fst (extraCheck L nzb) = fst (extraCheck L nzb'))"
  by (simp add: extraCheck_def Let_def)

theorem extraCheck_frame_witness:
  "snd (extraCheck sample_lib (sample_release (Some ''see tt0111161'')))
     = sample_release (Some ''see tt0111161'') \<and>
   description (sample_release (Some ''see tt0111161''))
     = description ((sample_release (Some ''see tt0111161''))\<lparr>name := ''Beta'', seeders := 0\<rparr>) \<and>
   fst (extraCheck sample_lib (sample_release (Some ''see tt0111161'')))
     = fst (extraCheck sample_lib
         ((sample_release (Some ''see tt0111161''))\<lparr>name := ''Beta'', seeders := 0\<rparr>))"
  using extraCheck_frame
      [of sample_lib "sample_release (Some ''see tt0111161'')"
          "(sample_release (Some ''see tt0111161''))\<lparr>name := ''Beta'', seeders := 0\<rparr>"]
  by (simp add: sample_release_def)

subsection \<open>Searching a document\<close>

lemma find_in_None_iff: "find_in p es = None \<longleftrightarrow> (\<forall>e \<in> set es. \<not> p (fst e))"
  by (induction es) auto

lemma find_in_SomeD:
  "find_in p es = Some (e, rest) \<Longrightarrow> p (fst e) \<and> e \<in> set es \<and> set rest \<subseteq> set es"
  by (induction es) (auto split: if_splits)

lemma find_in_Some_split:
  "find_in p es = Some (e, rest) \<longleftrightarrow>
     (\<exists>before. es = before @ e # rest \<and> p (fst e) \<and> (\<forall>b \<in> set before. \<not> p (fst b)))"
proof (induction es)
  case Nil
  then show ?case by simp
next
  case (Cons x xs)
  show ?case
  proof (cases "p (fst x)")
    case True
    have "(\<exists>before. x # xs = before @ e # rest \<and> p (fst e) \<and> (\<forall>b \<in> set before. \<not> p (fst b)))
            \<longleftrightarrow> (x = e \<and> xs = rest)"
    proof
      assume "\<exists>before. x # xs = before @ e # rest \<and> p (fst e) \<and> (\<forall>b \<in> set before. \<not> p (fst b))"
      then obtain before where b: "x # xs = before @ e # rest"
        and n: "\<forall>b \<in> set before. \<not> p (fst b)" by blast
      show "x = e \<and> xs = rest"
      proof (cases before)
        case Nil
        with b show ?thesis by simp
      next
        case (Cons y ys)
        with b have "y = x" by simp
        with Cons n True show ?thesis by simp
      qed
    next
      assume "x = e \<and> xs = rest"
      with True have "x # xs = [] @ e # rest \<and> p (fst e) \<and> (\<forall>b \<in> set []. \<not> p (fst b))"
        by simp
      then show "\<exists>before. x # xs = before @ e # rest \<and> p (fst e) \<and> (\<forall>b \<in> set before. \<not> p (fst b))"
        by blast
    qed
    with True show ?thesis by auto
  next
    case False
    have "(\<exists>before. x # xs = before @ e # rest \<and> p (fst e) \<and> (\<forall>b \<in> set before. \<not> p (fst b)))
            \<longleftrightarrow> (\<exists>before. xs = before @ e # rest \<and> p (fst e) \<and> (\<forall>b \<in> set before. \<not> p (fst b)))"
    proof
      assume "\<exists>before. x # xs = before @ e # rest \<and> p (fst e) \<and> (\<forall>b \<in> set before. \<not> p (fst b))"
      then obtain before where b: "x # xs = before @ e # rest" and pe: "p (fst e)"
        and n: "\<forall>b \<in> set before. \<not> p (fst b)" by blast
      show "\<exists>before. xs = before @ e # rest \<and> p (fst e) \<and> (\<forall>b \<in> set before. \<not> p (fst b))"
      proof (cases before)
        case Nil
        with b pe False show ?thesis by simp
      next
        case (Cons y ys)
        with b have "xs = ys @ e # rest" by simp
        moreover from Cons n have "\<forall>b \<in> set ys. \<not> p (fst b)" by simp
        ultimately show ?thesis using pe by blast
      qed
    next
      assume "\<exists>before. xs = before @ e # rest \<and> p (fst e) \<and> (\<forall>b \<in> set before. \<not> p (fst b))"
      then obtain before where b: "xs = before @ e # rest" and pe: "p (fst e)"
        and n: "\<forall>b \<in> set before. \<not> p (fst b)" by blast
      from b have "x # xs = (x # before) @ e # rest" by simp
      moreover from n False have "\<forall>b \<in> set (x # before). \<not> p (fst b)" by simp
      ultimately show "\<exists>before. x # xs = before @ e # rest \<and> p (fst e) \<and> (\<forall>b \<in> set before. \<not> p (fst b))"
        using pe by blast
    qed
    with False Cons.IH show ?thesis by simp
  qed
qed

subsection \<open>loginCheckSuccess\<close>

lemma deconnexion_not_empty: "deconnexion \<noteq> []"
  by (simp add: deconnexion_def)

text \<open>
  C5, as the code has it. \<open>loginCheckSuccess\<close> returns true if and only if some string of
  the parsed document, a text or a comment, is as a whole equal to the text of line 127
  (a space followed by the word); a string that has more around that text does not
  count. An exception of the parser is raised to the caller.
\<close>

theorem loginCheckSuccess_exact:
  "loginCheckSuccess L output =
     (case BeautifulSoup L output of
        Inl e \<Rightarrow> Inl e
      | Inr soup \<Rightarrow>
          Inr (\<exists>e \<in> set (descendants (soup, [])). string_of (fst e) = Some deconnexion))"
proof (cases "BeautifulSoup L output")
  case (Inl e)
  then show ?thesis by (simp add: loginCheckSuccess_def)
next
  case (Inr soup)
  show ?thesis
  proof (cases "find_in (is_text deconnexion) (descendants (soup, []))")
    case None
    then have "\<forall>e \<in> set (descendants (soup, [])). \<not> is_text deconnexion (fst e)"
      by (simp add: find_in_None_iff)
    then have "\<not> (\<exists>e \<in> set (descendants (soup, [])). string_of (fst e) = Some deconnexion)"
      by (simp add: is_text_def)
    with Inr None show ?thesis by (simp add: loginCheckSuccess_def)
  next
    case (Some found)
    obtain e rest where f: "found = (e, rest)" by (cases found)
    from Some f have t: "is_text deconnexion (fst e)" and m: "e \<in> set (descendants (soup, []))"
      by (auto dest: find_in_SomeD)
    from t have s: "string_of (fst e) = Some deconnexion" by (simp add: is_text_def)
    with m have "\<exists>e \<in> set (descendants (soup, [])). string_of (fst e) = Some deconnexion"
      by blast
    with Inr Some f s deconnexion_not_empty show ?thesis
      by (simp add: loginCheckSuccess_def)
  qed
qed

lemma logout_page_strings:
  "\<exists>e \<in> set (descendants (logout_page, [])). string_of (fst e) = Some deconnexion"
  by code_simp

theorem loginCheckSuccess_exact_witness:
  "loginCheckSuccess (sample_lib\<lparr>BeautifulSoup := \<lambda>d. Inr logout_page\<rparr>) ''<html>'' = Inr True"
  using loginCheckSuccess_exact [of "sample_lib\<lparr>BeautifulSoup := \<lambda>d. Inr logout_page\<rparr>" "''<html>''"]
    logout_page_strings
  by simp

text \<open>
  C5 as the claim states it fails on \<open>greeting_page\<close>: the text of the document contains
  the text of line 127, and \<open>loginCheckSuccess\<close> returns false.
\<close>

theorem loginCheckSuccess_counterexample:
  "re_find deconnexion (getText greeting_page) \<and>
   loginCheckSuccess (sample_lib\<lparr>BeautifulSoup := \<lambda>d. Inr greeting_page\<rparr>) ''<html>'' = Inr False"
  by code_simp

subsection \<open>getMoreInfo\<close>

text \<open>
  C8, as the code has it. Let the detail page of a result be fetched and parsed.
  \<^item> When the page has no description header, \<open>getMoreInfo\<close> raises and writes nothing.
  \<^item> When it has one, the description is set to the first \<open>div\<close> after the header, and is
    left as it was when no \<open>div\<close> comes after the header.
  \<^item> When the label of line 144 is missing, or no cell comes after it, \<open>getMoreInfo\<close>
    raises \<open>AttributeError\<close>; when the text of that cell up to its first parenthesis is
    not a date, it raises what \<open>strptime\<close> raises. The age is then left as it was.
  \<^item> Otherwise the call returns and the age is set to the number of whole days from the
    date to now, rounded down.
  \<^item> No other key of the result is changed.
\<close>

theorem getMoreInfo_outcome:
  assumes "getHTMLData L (detail_url nzb) = Inr data"
    and "BeautifulSoup L data = Inr soup"
  shows
    "snd (getMoreInfo L nzb)
       = nzb\<lparr>description := description (snd (getMoreInfo L nzb)),
              age := age (snd (getMoreInfo L nzb))\<rparr> \<and>
     (find_in (has_class ''description-header'') (descendants (soup, [])) = None \<longrightarrow>
        getMoreInfo L nzb = (Inl AttributeError, nzb)) \<and>
     (find_in (has_class ''description-header'') (descendants (soup, []))
        = Some (header, after_header) \<longrightarrow>
        description (snd (getMoreInfo L nzb))
          = (case find_in (is_named ''div'') after_header of
               None \<Rightarrow> description nzb
             | Some (d, after_d) \<Rightarrow> Some (prettify L (fst d))) \<and>
        (find_in (is_text uploade_le) (descendants (soup, [])) = None \<longrightarrow>
           fst (getMoreInfo L nzb) = Inl AttributeError \<and>
           age (snd (getMoreInfo L nzb)) = age nzb) \<and>
        (find_in (is_text uploade_le) (descendants (soup, [])) = Some (label, after_label) \<longrightarrow>
           (find_in (is_named ''td'') after_label = None \<longrightarrow>
              fst (getMoreInfo L nzb) = Inl AttributeError \<and>
              age (snd (getMoreInfo L nzb)) = age nzb) \<and>
           (find_in (is_named ''td'') after_label = Some (line, after_line) \<longrightarrow>
              (case strptime L (strip L (takeWhile (\<lambda>c. c \<noteq> CHR ''('') (getText (fst line)))) of
                 Inl e \<Rightarrow>
                   fst (getMoreInfo L nzb) = Inl e \<and> age (snd (getMoreInfo L nzb)) = age nzb
               | Inr added \<Rightarrow>
                   fst (getMoreInfo L nzb) = Inr () \<and>
                   age (snd (getMoreInfo L nzb)) = Some ((now L - added) div day) \<and>
                   day * ((now L - added) div day) \<le> now L - added \<and>
                   now L - added < day * ((now L - added) div day) + day))))"
proof -
  have floor1: "day * (x div day) \<le> x" for x :: int
    by (simp add: day_def)
  have floor2: "x < day * (x div day) + day" for x :: int
  proof -
    have "x = day * (x div day) + x mod day" by simp
    moreover have "x mod day < day" by (simp add: day_def)
    ultimately show ?thesis by linarith
  qed
  show ?thesis
    using assms floor1 floor2
    by (auto simp add: getMoreInfo_def Let_def split: option.splits sum.splits prod.splits)
qed

lemma detail_page_header:
  "find_in (has_class ''description-header'') (descendants (detail_page, []))
     = Some (fst detail_header, snd detail_header)"
  by code_simp

lemma detail_page_label:
  "find_in (is_text uploade_le) (descendants (detail_page, []))
     = Some (fst detail_label, snd detail_label)"
  by code_simp

lemma detail_page_line:
  "find_in (is_named ''td'') (snd detail_label) = Some (fst detail_line, snd detail_line)"
  by code_simp

lemma detail_page_description:
  "(case find_in (is_named ''div'') (snd detail_header) of
      None \<Rightarrow> description (sample_release None)
    | Some (d, after_d) \<Rightarrow> Some (prettify (detail_lib detail_page) (fst d)))
   = Some ''Alpha, tt0111161''"
  by code_simp

lemma detail_page_date:
  "strptime (detail_lib detail_page)
     (strip (detail_lib detail_page)
        (takeWhile (\<lambda>c. c \<noteq> CHR ''('') (getText (fst (fst detail_line)))))
   = Inr day"
  by code_simp

lemma detail_page_age: "(now (detail_lib detail_page) - day) div day = 2"
  by code_simp

theorem getMoreInfo_outcome_witness:
  "getMoreInfo (detail_lib detail_page) (sample_release None)
     = (Inr (), (sample_release None)\<lparr>description := Some ''Alpha, tt0111161'', age := Some 2\<rparr>)"
proof -
  let ?r = "getMoreInfo (detail_lib detail_page) (sample_release None)"
  have fetch: "getHTMLData (detail_lib detail_page) (detail_url (sample_release None))
                 = Inr (detail_url (sample_release None))"
    by (simp add: detail_lib_def sample_lib_def)
  have parse: "BeautifulSoup (detail_lib detail_page) (detail_url (sample_release None))
                 = Inr detail_page"
    by (simp add: detail_lib_def)
  note outcome = getMoreInfo_outcome [OF fetch parse,
      of "fst detail_header" "snd detail_header" "fst detail_label" "snd detail_label"
         "fst detail_line" "snd detail_line"]
  from outcome detail_page_header detail_page_label detail_page_line
  have frame: "snd ?r = (sample_release None)\<lparr>description := description (snd ?r),
                 age := age (snd ?r)\<rparr>"
    and d: "description (snd ?r)
       = (case find_in (is_named ''div'') (snd detail_header) of
            None \<Rightarrow> description (sample_release None)
          | Some (d, after_d) \<Rightarrow> Some (prettify (detail_lib detail_page) (fst d)))"
    and c: "(case strptime (detail_lib detail_page)
               (strip (detail_lib detail_page)
                  (takeWhile (\<lambda>c. c \<noteq> CHR ''('') (getText (fst (fst detail_line))))) of
              Inl e \<Rightarrow> fst ?r = Inl e \<and> age (snd ?r) = age (sample_release None)
            | Inr added \<Rightarrow>
                fst ?r = Inr () \<and>
                age (snd ?r) = Some ((now (detail_lib detail_page) - added) div day) \<and>
                day * ((now (detail_lib detail_page) - added) div day)
                  \<le> now (detail_lib detail_page) - added \<and>
                now (detail_lib detail_page) - added
                  < day * ((now (detail_lib detail_page) - added) div day) + day)"
    by blast+
  from c have r: "fst ?r = Inr ()" and a: "age (snd ?r) = Some 2"
    unfolding detail_page_date by (simp_all add: detail_page_age)
  from d have d': "description (snd ?r) = Some ''Alpha, tt0111161''"
    unfolding detail_page_description .
  from frame have "snd ?r
       = (sample_release None)\<lparr>description := Some ''Alpha, tt0111161'', age := Some 2\<rparr>"
    unfolding d' a .
  with r show ?thesis by (simp add: prod_eq_iff)
qed

text \<open>
  C8 as the claim states it fails on \<open>bare_detail_page\<close>: the label and the date are there
  and the call returns, with the age set and no description. It fails on
  \<open>headless_detail_page\<close> too: the label and the date are there, and the call raises
  without setting the age.
\<close>

theorem getMoreInfo_counterexample:
  "fst (getMoreInfo (detail_lib bare_detail_page) (sample_release None)) = Inr () \<and>
   age (snd (getMoreInfo (detail_lib bare_detail_page) (sample_release None))) = Some 2 \<and>
   description (snd (getMoreInfo (detail_lib bare_detail_page) (sample_release None))) = None \<and>
   getMoreInfo (detail_lib headless_detail_page) (sample_release None)
     = (Inl AttributeError, sample_release None)"
  by code_simp

subsection \<open>One link of a results page\<close>

lemma process_link_skip:
  assumes "href_of (fst link) = Some h" and "\<not> category_search h"
  shows "process_link L self link = Inr None"
  using assms by (simp add: process_link_def)

lemma process_link_malformed:
  assumes "href_of (fst link) = Some h" and "category_search h" and "id_search h = None"
  shows "process_link L self link = Inl AttributeError"
  using assms by (simp add: process_link_def)

lemma process_link_short:
  assumes "href_of (fst link) = Some h" and "category_search h" and "id_search h = Some digits"
    and "columns_of link = Inr cells" and "length cells < 9"
  shows "process_link L self link = Inl IndexError"
  using assms by (simp add: process_link_def Let_def)

lemma process_link_well_formed:
  assumes h: "href_of (fst link) = Some h" and c: "category_search h"
    and t: "urls self ''url'' = Some (Some template)"
    and w: "well_formed L template link"
  shows "\<exists>r. process_link L self link = Inr (Some r) \<and> describes L template link r"
proof -
  from w h obtain digits where d: "id_search h = Some digits"
    by (auto simp add: well_formed_def split: option.splits)
  from w h d obtain cells where cs: "columns_of link = Inr cells"
    by (auto simp add: well_formed_def split: sum.splits)
  from w h d cs have n: "9 \<le> length cells"
    by (simp add: well_formed_def)
  from w h d cs obtain download
    where f: "str_format L template (PInt (tryInt L digits)) = Inr download"
    by (auto simp add: well_formed_def split: sum.splits)
  let ?r = "\<lparr>id_key = tryInt L digits, name = parseText L (fst link),
      seeders = tryInt L (parseText L (cells ! 7)),
      leechers = tryInt L (parseText L (cells ! 8)),
      size_key = parseSize L (parseText L (cells ! 5)), url = download, detail_url = h,
      verified = True, description = None, age = None\<rparr>"
  have "process_link L self link = Inr (Some ?r)"
    using h c d cs n t f by (simp add: process_link_def Let_def)
  moreover have "describes L template link ?r"
    using h d cs n f by (simp add: describes_def)
  ultimately show ?thesis by blast
qed


lemma extract_links_well_formed:
  assumes "\<forall>link \<in> set links. href_of (fst link) \<noteq> None"
    and "urls self ''url'' = Some (Some template)"
    and "\<forall>link \<in> set links.
           (case href_of (fst link) of None \<Rightarrow> False | Some h \<Rightarrow> category_search h)
             \<longrightarrow> well_formed L template link"
  shows "\<exists>appended.
           extract_links L self links rs = (None, rs @ appended) \<and>
           list_all2 (describes L template)
             (filter (\<lambda>link. case href_of (fst link) of None \<Rightarrow> False | Some h \<Rightarrow> category_search h)
                links)
             appended"
  using assms(1,3)
proof (induction links arbitrary: rs)
  case Nil
  then show ?case by simp
next
  case (Cons link links)
  from Cons.prems(1) obtain h where h: "href_of (fst link) = Some h" by auto
  from Cons.prems have rest1: "\<forall>l \<in> set links. href_of (fst l) \<noteq> None"
    and rest2: "\<forall>l \<in> set links.
           (case href_of (fst l) of None \<Rightarrow> False | Some h \<Rightarrow> category_search h)
             \<longrightarrow> well_formed L template l"
    by simp_all
  show ?case
  proof (cases "category_search h")
    case False
    with h have "process_link L self link = Inr None" by (rule process_link_skip)
    moreover from Cons.IH [OF rest1 rest2, of rs] obtain appended
      where "extract_links L self links rs = (None, rs @ appended)"
        and "list_all2 (describes L template)
             (filter (\<lambda>link. case href_of (fst link) of None \<Rightarrow> False | Some h \<Rightarrow> category_search h)
                links) appended"
      by blast
    ultimately show ?thesis using h False by simp
  next
    case True
    with h Cons.prems(2) have "well_formed L template link" by simp
    with h True assms(2) obtain r
      where p: "process_link L self link = Inr (Some r)" and d: "describes L template link r"
      using process_link_well_formed by blast
    from Cons.IH [OF rest1 rest2, of "rs @ [r]"] obtain appended
      where e: "extract_links L self links (rs @ [r]) = (None, (rs @ [r]) @ appended)"
        and l: "list_all2 (describes L template)
             (filter (\<lambda>link. case href_of (fst link) of None \<Rightarrow> False | Some h \<Rightarrow> category_search h)
                links) appended"
      by blast
    from p e have "extract_links L self (link # links) rs = (None, rs @ (r # appended))"
      by simp
    moreover from h True d l have "list_all2 (describes L template)
             (filter (\<lambda>link. case href_of (fst link) of None \<Rightarrow> False | Some h \<Rightarrow> category_search h)
                (link # links)) (r # appended)"
      by simp
    ultimately show ?thesis by blast
  qed
qed

lemma find_all_href: "\<forall>link \<in> set (find_all (href_matches pattern) es). href_of (fst link) \<noteq> None"
  by (auto simp add: find_all_def href_matches_def split: option.splits)

subsection \<open>The results of a page\<close>

lemma scan_page_fetched:
  assumes "buildUrl L self title offset = Inr search_url"
    and "getHTMLData L search_url = Inr data"
    and "BeautifulSoup L data = Inr soup"
    and "urls self ''torrent'' = Some (Some torrent)"
  shows "scan_page L self title offset rs =
     (case find_in (has_class ''results'') (descendants (soup, [])) of
        None \<Rightarrow> (Inr False, rs)
      | Some (resultList, after_resultList) \<Rightarrow>
     (case re_compile L (''^'' @ torrent) of
        Inl e \<Rightarrow> (Inl e, rs)
      | Inr pattern \<Rightarrow>
     (case extract_links L self (find_all (href_matches pattern) (descendants resultList)) rs of
        (Some e, rs1) \<Rightarrow> (Inl e, rs1)
      | (None, rs1) \<Rightarrow>
     (case find_in (\<lambda>n. is_named ''ul'' n \<and> has_class ''pagination'' n)
             (descendants (soup, [])) of
        None \<Rightarrow> (Inr False, rs1)
      | Some (pagination, after_pagination) \<Rightarrow>
          (scan_pagination L offset (find_all (is_named ''li'') (descendants pagination)),
           rs1)))))"
  using assms by (simp add: scan_page_def split: option.split sum.split prod.split)

text \<open>
  C1, as the code has it. Let a results page be fetched and parsed, the two endpoints
  \<open>torrent\<close> and \<open>url\<close> being set. When the page has no results container, nothing is
  appended and nothing is raised. When it has one and the filter \<open>^\<close> followed by the
  \<open>torrent\<close> endpoint compiles, take the links below the container whose \<open>href\<close> the filter
  finds and whose \<open>href\<close> has the category path. If each of them is well formed (an \<open>href\<close>
  that ends with an identifier and a slug, a row of at least nine cells, a download
  template that can be filled), then exactly one result per such link is appended, in
  the order of the document, each with its size read from cell 5, its seeders from
  cell 7, its leechers from cell 8, \<open>verified\<close> true and the download URL built from the
  identifier; the links of another category give no result.
\<close>

theorem scan_page_results:
  assumes "buildUrl L self title offset = Inr search_url"
    and "getHTMLData L search_url = Inr data"
    and "BeautifulSoup L data = Inr soup"
    and "urls self ''torrent'' = Some (Some torrent)"
    and "urls self ''url'' = Some (Some template)"
  shows
    "(find_in (has_class ''results'') (descendants (soup, [])) = None \<longrightarrow>
        scan_page L self title offset rs = (Inr False, rs)) \<and>
     (find_in (has_class ''results'') (descendants (soup, [])) = Some (resultList, following) \<longrightarrow>
      re_compile L (''^'' @ torrent) = Inr pattern \<longrightarrow>
      (\<forall>link \<in> set (category_links pattern resultList). well_formed L template link) \<longrightarrow>
      (\<exists>appended.
         snd (scan_page L self title offset rs) = rs @ appended \<and>
         list_all2 (describes L template) (category_links pattern resultList) appended))"
proof (intro conjI impI)
  assume "find_in (has_class ''results'') (descendants (soup, [])) = None"
  then show "scan_page L self title offset rs = (Inr False, rs)"
    by (simp add: scan_page_fetched [OF assms(1-4)])
next
  let ?links = "find_all (href_matches pattern) (descendants resultList)"
  assume found: "find_in (has_class ''results'') (descendants (soup, []))
                   = Some (resultList, following)"
    and compiled: "re_compile L (''^'' @ torrent) = Inr pattern"
    and formed: "\<forall>link \<in> set (category_links pattern resultList). well_formed L template link"
  have hrefs: "\<forall>link \<in> set ?links. href_of (fst link) \<noteq> None"
    by (rule find_all_href)
  from formed have formed': "\<forall>link \<in> set ?links.
           (case href_of (fst link) of None \<Rightarrow> False | Some h \<Rightarrow> category_search h)
             \<longrightarrow> well_formed L template link"
    by (auto simp add: category_links_def)
  from extract_links_well_formed [OF hrefs assms(5) formed', of rs] obtain appended
    where e: "extract_links L self ?links rs = (None, rs @ appended)"
      and l: "list_all2 (describes L template) (category_links pattern resultList) appended"
    unfolding category_links_def by blast
  have "snd (scan_page L self title offset rs) = rs @ appended"
    using found compiled e
    by (simp add: scan_page_fetched [OF assms(1-4)] split: option.split prod.split)
  with l show "\<exists>appended.
         snd (scan_page L self title offset rs) = rs @ appended \<and>
         list_all2 (describes L template) (category_links pattern resultList) appended"
    by blast
qed

lemma sample_torrent_endpoint:
  "urls sample_self ''torrent'' = Some (Some ''https://ygg.example/torrent'')"
  by code_simp

lemma sample_url_endpoint:
  "urls sample_self ''url'' = Some (Some ''https://ygg.example/engine/download_torrent?id={}'')"
  by code_simp

lemma page_lib_buildUrl:
  "buildUrl (page_lib page) sample_self ''alpha'' 0
     = Inr ''https://ygg.example/engine/search?category=2145&description=&do=search&file=&name=alpha&sub_category=all&uploader=''"
proof -
  have "buildUrl (page_lib page) sample_self ''alpha'' 0 = buildUrl sample_lib sample_self ''alpha'' 0"
    by (simp add: page_lib_def buildUrl_def buildUrl_params_def split: option.split)
  then show ?thesis by (simp add: sample_buildUrl_0)
qed

lemma page_lib_getHTMLData: "getHTMLData (page_lib page) u = Inr u"
  by (simp add: page_lib_def sample_lib_def)

lemma page_lib_BeautifulSoup: "BeautifulSoup (page_lib page) d = Inr page"
  by (simp add: page_lib_def)

lemma page_lib_compile:
  "re_compile (page_lib page) (''^'' @ ''https://ygg.example/torrent'') = Inr sample_pattern"
  by (simp add: page_lib_def sample_lib_def sample_compile_def sample_pattern_def)

lemma results_page_container:
  "find_in (has_class ''results'') (descendants (results_page, []))
     = Some (fst (container results_page), snd (container results_page))"
  by code_simp

lemma results_page_well_formed:
  "\<forall>link \<in> set (category_links sample_pattern (fst (container results_page))).
     well_formed (page_lib results_page) ''https://ygg.example/engine/download_torrent?id={}'' link"
  by code_simp

lemma results_page_links:
  "map (\<lambda>link. href_of (fst link)) (category_links sample_pattern (fst (container results_page)))
     = [Some (film_href ''101-alpha''), Some (film_href ''103-gamma'')]"
  by code_simp

lemma results_page_scan:
  "map (\<lambda>r. (id_key r, size_key r, seeders r, leechers r, verified r, url r))
      (snd (scan_page (page_lib results_page) sample_self ''alpha'' 0 []))
     = [(101, ''1.4Go'', 12, 3, True, ''https://ygg.example/engine/download_torrent?id=101''),
        (103, ''700Mo'', 7, 0, True, ''https://ygg.example/engine/download_torrent?id=103'')]"
  by code_simp

theorem scan_page_results_witness:
  "map (\<lambda>link. href_of (fst link)) (category_links sample_pattern (fst (container results_page)))
     = [Some (film_href ''101-alpha''), Some (film_href ''103-gamma'')] \<and>
   (\<exists>appended.
      snd (scan_page (page_lib results_page) sample_self ''alpha'' 0 []) = [] @ appended \<and>
      list_all2
        (describes (page_lib results_page) ''https://ygg.example/engine/download_torrent?id={}'')
        (category_links sample_pattern (fst (container results_page))) appended) \<and>
   map (\<lambda>r. (id_key r, size_key r, seeders r, leechers r, verified r, url r))
      (snd (scan_page (page_lib results_page) sample_self ''alpha'' 0 []))
     = [(101, ''1.4Go'', 12, 3, True, ''https://ygg.example/engine/download_torrent?id=101''),
        (103, ''700Mo'', 7, 0, True, ''https://ygg.example/engine/download_torrent?id=103'')]"
proof -
  note page = scan_page_results [OF page_lib_buildUrl [of results_page]
      page_lib_getHTMLData [of results_page] page_lib_BeautifulSoup [of results_page]
      sample_torrent_endpoint sample_url_endpoint,
      where resultList = "fst (container results_page)"
        and following = "snd (container results_page)" and pattern = sample_pattern
        and rs = "[]"]
  from page results_page_container page_lib_compile results_page_well_formed
  have "\<exists>appended.
      snd (scan_page (page_lib results_page) sample_self ''alpha'' 0 []) = [] @ appended \<and>
      list_all2
        (describes (page_lib results_page) ''https://ygg.example/engine/download_torrent?id={}'')
        (category_links sample_pattern (fst (container results_page))) appended"
    by blast
  with results_page_links results_page_scan show ?thesis by blast
qed

text \<open>
  C1 as the claim states it fails on \<open>short_page\<close>: three links below the container have
  the prefix and the category path, and one result is appended; the row of the second
  link has no cell 5, which raises \<open>IndexError\<close>.
\<close>

theorem scan_page_results_counterexample:
  "map (\<lambda>link. href_of (fst link)) (category_links sample_pattern (fst (container short_page)))
     = [Some (film_href ''101-alpha''), Some (film_href ''104-delta''),
        Some (film_href ''103-gamma'')] \<and>
   fst (scan_page (page_lib short_page) sample_self ''alpha'' 0 []) = Inl IndexError \<and>
   map id_key (snd (scan_page (page_lib short_page) sample_self ''alpha'' 0 [])) = [101]"
  by code_simp

text \<open>
  C4 fails on \<open>malformed_page\<close>. The \<open>href\<close> of its first link has the category path and
  no identifier: \<open>re.search\<close> returns \<open>None\<close>, \<open>.group(1)\<close> raises \<open>AttributeError\<close> before
  \<open>tryInt\<close> is called, and the page gives no result at all, the well-formed link that
  follows included.
\<close>

theorem process_link_malformed_id:
  "category_search (film_href ''alpha'') \<and>
   id_search (film_href ''alpha'') = None \<and>
   scan_page (page_lib malformed_page) sample_self ''alpha'' 0 [] = (Inl AttributeError, [])"
  by code_simp

subsection \<open>The call as a whole\<close>




lemma except_entered: "entered (snd (except r)) = entered (snd r)"
  by (cases r) (auto simp add: except_def split: sum.splits)

lemma searchOnTitle_Suc:
  "searchOnTitle (Suc depth) L self title media quality w offset =
     except
       (case scan_page L self title offset (results w) of
          (Inl e, rs1) \<Rightarrow>
            (Inl e, w\<lparr>entered := entered w @ [(title, media, quality, offset)], results := rs1\<rparr>)
        | (Inr False, rs1) \<Rightarrow>
            (Inr (), w\<lparr>entered := entered w @ [(title, media, quality, offset)], results := rs1\<rparr>)
        | (Inr True, rs1) \<Rightarrow>
            searchOnTitle depth L self title media quality
              (w\<lparr>entered := entered w @ [(title, media, quality, offset)], results := rs1\<rparr>)
              (offset + 1))"
  by (simp add: Let_def split: prod.split sum.split bool.split)

declare searchOnTitle.simps(2) [simp del]

lemma searchOnTitle_raised:
  assumes "scan_page L self title offset (results w) = (Inl e, rs1)"
  shows "searchOnTitle (Suc depth) L self title media quality w offset =
     (Inr (), w\<lparr>entered := entered w @ [(title, media, quality, offset)], results := rs1,
               logged := logged w @ [e]\<rparr>)"
  unfolding searchOnTitle_Suc using assms by (simp add: except_def)

lemma searchOnTitle_finished:
  assumes "scan_page L self title offset (results w) = (Inr False, rs1)"
  shows "searchOnTitle (Suc depth) L self title media quality w offset =
     (Inr (), w\<lparr>entered := entered w @ [(title, media, quality, offset)], results := rs1\<rparr>)"
  unfolding searchOnTitle_Suc using assms by (simp add: except_def)

lemma searchOnTitle_next:
  assumes "scan_page L self title offset (results w) = (Inr True, rs1)"
  shows "searchOnTitle (Suc depth) L self title media quality w offset =
     except (searchOnTitle depth L self title media quality
       (w\<lparr>entered := entered w @ [(title, media, quality, offset)], results := rs1\<rparr>)
       (offset + 1))"
  unfolding searchOnTitle_Suc using assms by simp

lemma searchOnTitle_stops:
  assumes "fst (scan_page L self title offset (results w)) \<noteq> Inr True"
  shows "entered (snd (searchOnTitle (Suc depth) L self title media quality w offset))
           = entered w @ [(title, media, quality, offset)]"
proof (cases "scan_page L self title offset (results w)")
  case (Pair outcome rs1)
  show ?thesis
  proof (cases outcome)
    case (Inl e)
    with Pair show ?thesis by (simp add: searchOnTitle_raised)
  next
    case (Inr again)
    with Pair assms have "scan_page L self title offset (results w) = (Inr False, rs1)"
      by simp
    then show ?thesis by (simp add: searchOnTitle_finished)
  qed
qed


lemma searchOnTitle_entered_prefix:
  "prefix (entered w) (entered (snd (searchOnTitle depth L self title media quality w offset)))"
proof (induction depth arbitrary: w offset)
  case 0
  show ?case by simp
next
  case (Suc depth)
  show ?case
  proof (cases "fst (scan_page L self title offset (results w)) = Inr True")
    case False
    then show ?thesis by (simp add: searchOnTitle_stops)
  next
    case True
    then obtain rs1 where s: "scan_page L self title offset (results w) = (Inr True, rs1)"
      by (cases "scan_page L self title offset (results w)") simp
    let ?w = "w\<lparr>entered := entered w @ [(title, media, quality, offset)], results := rs1\<rparr>"
    have "prefix (entered w) (entered ?w)" by simp
    also have "prefix (entered ?w)
              (entered (snd (searchOnTitle depth L self title media quality ?w (offset + 1))))"
      by (rule Suc.IH)
    finally show ?thesis using s by (simp add: searchOnTitle_next except_entered)
  qed
qed

lemma searchOnTitle_entered_first:
  "prefix (entered w @ [(title, media, quality, offset)])
     (entered (snd (searchOnTitle (Suc depth) L self title media quality w offset)))"
proof (cases "fst (scan_page L self title offset (results w)) = Inr True")
  case False
  then show ?thesis by (simp add: searchOnTitle_stops)
next
  case True
  then obtain rs1 where s: "scan_page L self title offset (results w) = (Inr True, rs1)"
    by (cases "scan_page L self title offset (results w)") simp
  let ?w = "w\<lparr>entered := entered w @ [(title, media, quality, offset)], results := rs1\<rparr>"
  have "prefix (entered ?w)
          (entered (snd (searchOnTitle depth L self title media quality ?w (offset + 1))))"
    by (rule searchOnTitle_entered_prefix)
  with s show ?thesis by (simp add: searchOnTitle_next except_entered)
qed

lemma scan_pagination_True_iff:
  "scan_pagination L offset items = Inr True \<longleftrightarrow>
     (\<exists>before item following.
        items = before @ item # following \<and>
        (\<exists>n. page_label L item = Inr n \<and> offset + 1 < n) \<and>
        (\<forall>b \<in> set before. \<exists>m. page_label L b = Inr m \<and> m \<le> offset + 1))"
  (is "?scan items \<longleftrightarrow> ?beyond items")
proof (induction items)
  case Nil
  show ?case by simp
next
  case (Cons page pages)
  show ?case
  proof (cases "page_label L page")
    case (Inl e)
    have "\<not> ?beyond (page # pages)"
    proof
      assume "?beyond (page # pages)"
      then obtain before item following n
        where d: "page # pages = before @ item # following"
          and i: "page_label L item = Inr n"
          and b: "\<forall>b \<in> set before. \<exists>m. page_label L b = Inr m \<and> m \<le> offset + 1"
        by blast
      show False
      proof (cases before)
        case Nil
        with d i Inl show False by simp
      next
        case (Cons x xs)
        with d have "x = page" by simp
        with Cons b Inl show False by simp
      qed
    qed
    with Inl show ?thesis by simp
  next
    case (Inr n)
    show ?thesis
    proof (cases "offset + 1 < n")
      case True
      have "page # pages = [] @ page # pages" by simp
      with Inr True have "?beyond (page # pages)" by fastforce
      with Inr True show ?thesis by simp
    next
      case False
      have "?beyond (page # pages) \<longleftrightarrow> ?beyond pages"
      proof
        assume "?beyond (page # pages)"
        then obtain before item following k
          where d: "page # pages = before @ item # following"
            and i: "page_label L item = Inr k" and k: "offset + 1 < k"
            and b: "\<forall>b \<in> set before. \<exists>m. page_label L b = Inr m \<and> m \<le> offset + 1"
          by blast
        show "?beyond pages"
        proof (cases before)
          case Nil
          with d i k Inr False show ?thesis by simp
        next
          case (Cons x xs)
          with d have "pages = xs @ item # following" by simp
          moreover from Cons b
          have "\<forall>b \<in> set xs. \<exists>m. page_label L b = Inr m \<and> m \<le> offset + 1" by simp
          ultimately show ?thesis using i k by blast
        qed
      next
        assume "?beyond pages"
        then obtain before item following k
          where d: "pages = before @ item # following"
            and i: "page_label L item = Inr k" and k: "offset + 1 < k"
            and b: "\<forall>b \<in> set before. \<exists>m. page_label L b = Inr m \<and> m \<le> offset + 1"
          by blast
        from d have "page # pages = (page # before) @ item # following" by simp
        moreover from b Inr False
        have "\<forall>b \<in> set (page # before). \<exists>m. page_label L b = Inr m \<and> m \<le> offset + 1"
          by simp
        ultimately show "?beyond (page # pages)" using i k by blast
      qed
      with Inr False Cons.IH show ?thesis by simp
    qed
  qed
qed












text \<open>
  C3, as the code has it. Let a results page be fetched and parsed, the endpoint \<open>torrent\<close>
  being set, in a call for which the stack has room.
  \<^item> When the page has no results container, no recursive call is made, whatever the
    pagination control is: the control is read inside the \<open>if\<close> of line 215.
  \<^item> When the page has a results container, the filter compiles and the loop over the
    links raises nothing, the call recurses if and only if the page has a pagination
    control and some item of it has a label beyond \<open>offset + 1\<close>, every item before it
    having a link and a label not beyond \<open>offset + 1\<close> (an item without a link raises).
    The outcome of the call is then the outcome of one call with \<open>offset + 1\<close>, the same
    title, media and quality and the list of results as the page left it, passed
    through the handler; that call is the next one entered. Otherwise no call follows.
\<close>

theorem searchOnTitle_next_page:
  assumes "buildUrl L self title offset = Inr search_url"
    and "getHTMLData L search_url = Inr data"
    and "BeautifulSoup L data = Inr soup"
    and "urls self ''torrent'' = Some (Some torrent)"
  shows
    "(find_in (has_class ''results'') (descendants (soup, [])) = None \<longrightarrow>
        entered (snd (searchOnTitle (Suc depth) L self title media quality w offset))
          = entered w @ [(title, media, quality, offset)]) \<and>
     (find_in (has_class ''results'') (descendants (soup, [])) = Some (resultList, following) \<longrightarrow>
      re_compile L (''^'' @ torrent) = Inr pattern \<longrightarrow>
      extract_links L self (find_all (href_matches pattern) (descendants resultList)) (results w)
        = (None, extracted) \<longrightarrow>
        (find_in (\<lambda>n. is_named ''ul'' n \<and> has_class ''pagination'' n) (descendants (soup, []))
           = None \<longrightarrow>
           entered (snd (searchOnTitle (Suc depth) L self title media quality w offset))
             = entered w @ [(title, media, quality, offset)]) \<and>
        (find_in (\<lambda>n. is_named ''ul'' n \<and> has_class ''pagination'' n) (descendants (soup, []))
           = Some (pagination, after_pagination) \<longrightarrow>
           ((\<exists>before item after_item.
               find_all (is_named ''li'') (descendants pagination) = before @ item # after_item \<and>
               (\<exists>n. page_label L item = Inr n \<and> offset + 1 < n) \<and>
               (\<forall>b \<in> set before. \<exists>m. page_label L b = Inr m \<and> m \<le> offset + 1)) \<longrightarrow>
              searchOnTitle (Suc depth) L self title media quality w offset
                = except (searchOnTitle depth L self title media quality
                    (w\<lparr>entered := entered w @ [(title, media, quality, offset)],
                       results := extracted\<rparr>)
                    (offset + 1)) \<and>
              prefix (entered w @ [(title, media, quality, offset),
                                   (title, media, quality, offset + 1)])
                (entered (snd (searchOnTitle (Suc (Suc depth)) L self title media quality w
                                 offset)))) \<and>
           (\<not> (\<exists>before item after_item.
               find_all (is_named ''li'') (descendants pagination) = before @ item # after_item \<and>
               (\<exists>n. page_label L item = Inr n \<and> offset + 1 < n) \<and>
               (\<forall>b \<in> set before. \<exists>m. page_label L b = Inr m \<and> m \<le> offset + 1)) \<longrightarrow>
              entered (snd (searchOnTitle (Suc depth) L self title media quality w offset))
                = entered w @ [(title, media, quality, offset)])))"
proof -
  note page = scan_page_fetched [OF assms, of "results w"]
  let ?call = "(title, media, quality, offset)"
  let ?w = "w\<lparr>entered := entered w @ [?call], results := extracted\<rparr>"
  have none: "entered (snd (searchOnTitle (Suc depth) L self title media quality w offset))
                = entered w @ [?call]"
    if "find_in (has_class ''results'') (descendants (soup, [])) = None"
  proof -
    from that have "fst (scan_page L self title offset (results w)) \<noteq> Inr True"
      by (simp add: page)
    then show ?thesis by (rule searchOnTitle_stops)
  qed
  have no_control: "entered (snd (searchOnTitle (Suc depth) L self title media quality w offset))
                = entered w @ [?call]"
    if "find_in (has_class ''results'') (descendants (soup, [])) = Some (resultList, following)"
      and "re_compile L (''^'' @ torrent) = Inr pattern"
      and "extract_links L self (find_all (href_matches pattern) (descendants resultList))
             (results w) = (None, extracted)"
      and "find_in (\<lambda>n. is_named ''ul'' n \<and> has_class ''pagination'' n) (descendants (soup, []))
             = None"
  proof -
    from that have "fst (scan_page L self title offset (results w)) \<noteq> Inr True"
      by (simp add: page)
    then show ?thesis by (rule searchOnTitle_stops)
  qed
  have control: "scan_page L self title offset (results w)
      = (scan_pagination L offset (find_all (is_named ''li'') (descendants pagination)), extracted)"
    if "find_in (has_class ''results'') (descendants (soup, [])) = Some (resultList, following)"
      and "re_compile L (''^'' @ torrent) = Inr pattern"
      and "extract_links L self (find_all (href_matches pattern) (descendants resultList))
             (results w) = (None, extracted)"
      and "find_in (\<lambda>n. is_named ''ul'' n \<and> has_class ''pagination'' n) (descendants (soup, []))
             = Some (pagination, after_pagination)"
    using that by (simp add: page)
  have again: "searchOnTitle d L self title media quality w offset
                = except (searchOnTitle (d - 1) L self title media quality ?w (offset + 1))"
    if "scan_page L self title offset (results w)
      = (scan_pagination L offset (find_all (is_named ''li'') (descendants pagination)), extracted)"
      and "scan_pagination L offset (find_all (is_named ''li'') (descendants pagination))
            = Inr True"
      and "0 < d"
    for d
  proof -
    from that(3) obtain d' where d: "d = Suc d'" by (cases d) simp_all
    from that(1,2) have "scan_page L self title offset (results w) = (Inr True, extracted)" by simp
    then show ?thesis unfolding d by (simp add: searchOnTitle_next)
  qed
  have trace: "prefix (entered w @ [?call, (title, media, quality, offset + 1)])
                (entered (snd (searchOnTitle (Suc (Suc depth)) L self title media quality w
                                 offset)))"
    if "scan_page L self title offset (results w)
      = (scan_pagination L offset (find_all (is_named ''li'') (descendants pagination)), extracted)"
      and "scan_pagination L offset (find_all (is_named ''li'') (descendants pagination))
            = Inr True"
  proof -
    have "prefix (entered ?w @ [(title, media, quality, offset + 1)])
            (entered (snd (searchOnTitle (Suc depth) L self title media quality ?w (offset + 1))))"
      by (rule searchOnTitle_entered_first)
    moreover have "searchOnTitle (Suc (Suc depth)) L self title media quality w offset
        = except (searchOnTitle (Suc depth) L self title media quality ?w (offset + 1))"
      using again [OF that, of "Suc (Suc depth)"] by simp
    ultimately show ?thesis by (simp add: except_entered)
  qed
  have stop: "entered (snd (searchOnTitle (Suc depth) L self title media quality w offset))
                = entered w @ [?call]"
    if "scan_page L self title offset (results w)
      = (scan_pagination L offset (find_all (is_named ''li'') (descendants pagination)), extracted)"
      and "scan_pagination L offset (find_all (is_named ''li'') (descendants pagination))
            \<noteq> Inr True"
  proof -
    from that have "fst (scan_page L self title offset (results w)) \<noteq> Inr True" by simp
    then show ?thesis by (rule searchOnTitle_stops)
  qed
  show ?thesis
    unfolding scan_pagination_True_iff [symmetric]
    using none no_control control again [of "Suc depth"] trace stop
    by (intro conjI impI) (simp_all del: scan_pagination.simps)
qed

lemma small_page_container:
  "find_in (has_class ''results'') (descendants (small_page, []))
     = Some (fst (container small_page), snd (container small_page))"
  by code_simp

lemma small_page_links:
  "extract_links (page_lib small_page) sample_self
     (find_all (href_matches sample_pattern) (descendants (fst (container small_page))))
     (results empty_world)
     = (None, [sample_release None])"
  by code_simp

lemma small_page_pagination:
  "find_in (\<lambda>n. is_named ''ul'' n \<and> has_class ''pagination'' n) (descendants (small_page, []))
     = Some (fst (pagination_of small_page), snd (pagination_of small_page))"
  by code_simp

lemma small_page_labels:
  "scan_pagination (page_lib small_page) 0
     (find_all (is_named ''li'') (descendants (fst (pagination_of small_page)))) = Inr True"
  by code_simp

lemma small_page_entered:
  "entered (snd (searchOnTitle (Suc (Suc 0)) (page_lib small_page) sample_self ''alpha'' () ()
                   empty_world 0))
     = [(''alpha'', (), (), 0), (''alpha'', (), (), 1)]"
  by code_simp

theorem searchOnTitle_next_page_witness:
  "searchOnTitle (Suc 0) (page_lib small_page) sample_self ''alpha'' () () empty_world 0
     = except (searchOnTitle 0 (page_lib small_page) sample_self ''alpha'' () ()
         (empty_world\<lparr>entered := entered empty_world @ [(''alpha'', (), (), 0)],
            results := [sample_release None]\<rparr>)
         (0 + 1)) \<and>
   prefix (entered empty_world @ [(''alpha'', (), (), 0), (''alpha'', (), (), 0 + 1)])
     (entered (snd (searchOnTitle (Suc (Suc 0)) (page_lib small_page) sample_self ''alpha'' () ()
                      empty_world 0))) \<and>
   entered (snd (searchOnTitle (Suc (Suc 0)) (page_lib small_page) sample_self ''alpha'' () ()
                   empty_world 0))
     = [(''alpha'', (), (), 0), (''alpha'', (), (), 1)]"
proof -
  note next_page = searchOnTitle_next_page [OF page_lib_buildUrl [of small_page]
      page_lib_getHTMLData [of small_page] page_lib_BeautifulSoup [of small_page]
      sample_torrent_endpoint,
      where resultList = "fst (container small_page)" and following = "snd (container small_page)"
        and pattern = sample_pattern and w = empty_world and extracted = "[sample_release None]"
        and pagination = "fst (pagination_of small_page)"
        and after_pagination = "snd (pagination_of small_page)"
        and depth = 0 and media = "()" and quality = "()"]
  have beyond: "\<exists>before item after_item.
      find_all (is_named ''li'') (descendants (fst (pagination_of small_page)))
        = before @ item # after_item \<and>
      (\<exists>n. page_label (page_lib small_page) item = Inr n \<and> 0 + 1 < n) \<and>
      (\<forall>b \<in> set before. \<exists>m. page_label (page_lib small_page) b = Inr m \<and> m \<le> 0 + 1)"
    using small_page_labels unfolding scan_pagination_True_iff .
  from next_page small_page_container page_lib_compile [of small_page] small_page_links
    small_page_pagination beyond
  have "searchOnTitle (Suc 0) (page_lib small_page) sample_self ''alpha'' () () empty_world 0
     = except (searchOnTitle 0 (page_lib small_page) sample_self ''alpha'' () ()
         (empty_world\<lparr>entered := entered empty_world @ [(''alpha'', (), (), 0)],
            results := [sample_release None]\<rparr>)
         (0 + 1)) \<and>
   prefix (entered empty_world @ [(''alpha'', (), (), 0), (''alpha'', (), (), 0 + 1)])
     (entered (snd (searchOnTitle (Suc (Suc 0)) (page_lib small_page) sample_self ''alpha'' () ()
                      empty_world 0)))"
    by blast
  with small_page_entered show ?thesis by blast
qed

text \<open>
  C3 as the claim states it fails on \<open>paginated_page\<close>, at offset 0: the page has a
  pagination control whose items have the labels 1, 2 and 3, and no call follows the
  first one, because the page has no results container.
\<close>

theorem searchOnTitle_next_page_counterexample:
  "find_in (\<lambda>n. is_named ''ul'' n \<and> has_class ''pagination'' n)
      (descendants (paginated_page, []))
     = Some (fst (pagination_of paginated_page), snd (pagination_of paginated_page)) \<and>
   map (page_label (page_lib paginated_page))
      (find_all (is_named ''li'') (descendants (fst (pagination_of paginated_page))))
     = [Inr 1, Inr 2, Inr 3] \<and>
   entered (snd (searchOnTitle 3 (page_lib paginated_page) sample_self ''alpha'' () ()
                   empty_world 0))
     = [(''alpha'', (), (), 0)]"
  by code_simp

end
